theory Spec2Isabelle
  imports Complex_Main
begin

section \<open>Values, files and the trace of a run\<close>

text \<open>
  The program \<^verbatim>\<open>stt_recognize.py\<close> is sequential glue around three libraries
  (python-dotenv, pandas, the IBM Watson SDK) and the operating system.  A run is
  modelled by explicit state passing over a \<open>world\<close>: the process environment
  (\<^verbatim>\<open>os.environ\<close>), the file system as the process sees it (a path is a key; a
  directory holds its listing in the order \<^verbatim>\<open>os.listdir\<close> yields it) and the trace of
  everything the run did that can be observed from outside.  An exception or
  \<^verbatim>\<open>sys.exit\<close> is the value \<open>Inl e\<close>; a function that raises returns the world as
  it was at the raise.
\<close>

datatype json =
  JNull | JBool bool | JNum int | JStr string | JArr "json list" | JObj "(string \<times> json) list"

text \<open>A spreadsheet cell as pandas surfaces it: \<open>SFloat m e\<close> is the float \<open>m * 2^e\<close>.\<close>

datatype scalar = SStr string | SInt int | SFloat int int | SBool bool | SNaN

text \<open>
  What a file holds: bytes; \<open>JsonText j\<close>, the text
  \<^verbatim>\<open>json.dump(j, f, indent=2, ensure_ascii=False)\<close> writes; or \<open>Workbook sheet\<close>, a
  spreadsheet file whose first sheet has the rows \<open>sheet\<close>, from the top.
\<close>

datatype content = Bytes string | JsonText json | Workbook "scalar list list"

datatype entry = File content | Dir "string list"

datatype error =
  SystemExit int
  | IndexError
  | KeyError string
  | FileNotFoundError string
  | NotADirectoryError string
  | IsADirectoryError string
  | UnicodeEncodeError string
  | LibraryError string

text \<open>The keyword arguments of \<^verbatim>\<open>SpeechToTextV1.recognize\<close>, as \<^verbatim>\<open>sst_response\<close> passes them.\<close>

record request =
  audio :: content
  content_type :: string
  model :: string
  customization_id :: "string option"
  keyword_list :: "scalar list"
  word_alternatives_threshold :: real
  keywords_threshold :: real
  speaker_labels :: bool
  inactivity_timeout :: int
  max_alternatives :: int

record client =
  authenticator :: string
  service_url :: string

datatype event =
  Load_dotenv string
  | Printed string
  | Client_built string
  | Read_excel string int
  | Recognize client request
  | Wrote string json

record world =
  environ :: "string \<rightharpoonup> string"
  fs :: "string \<rightharpoonup> entry"
  trace :: "event list"

text \<open>
  A pandas \<^verbatim>\<open>DataFrame\<close>: the column labels and the data rows, each row with one
  cell per column.
\<close>

record data_frame =
  columns :: "scalar list"
  rows :: "scalar list list"

text \<open>
  The third-party libraries are parameters of the model; every theorem below holds for
  whatever they do.  \<open>load_dotenv\<close> gets the file system, the path and the process
  environment and yields the new process environment; \<open>read_excel\<close> gets the file system,
  the path and the \<^verbatim>\<open>header\<close> argument; \<open>iam_authenticator\<close> and \<open>set_service_url\<close>
  are the SDK's validation of the API key and of the URL; \<open>recognize\<close> is the remote
  service, whose answer may depend on everything that happened before.

  So are the two ways in which \<^verbatim>\<open>save_json\<close> can fail on its data once the file is
  open.  \<open>json_dump_fails j\<close> is \<open>Some (e, c)\<close> when \<^verbatim>\<open>json.dump\<close> raises \<open>e\<close> on
  \<open>j\<close>, leaving \<open>c\<close> in the file (a string of the document that the file's encoding
  cannot take, a device that is full).  \<open>print_fails s\<close> is \<open>Some e\<close> when
  \<^verbatim>\<open>print(s)\<close> raises \<open>e\<close>: the line names a file of the input directory, and a name
  that the encoding of standard output cannot take raises \<^verbatim>\<open>UnicodeEncodeError\<close>.
\<close>

record externals =
  load_dotenv :: "(string \<rightharpoonup> entry) \<Rightarrow> string \<Rightarrow> (string \<rightharpoonup> string) \<Rightarrow> error + (string \<rightharpoonup> string)"
  read_excel :: "(string \<rightharpoonup> entry) \<Rightarrow> string \<Rightarrow> int \<Rightarrow> error + data_frame"
  iam_authenticator :: "string \<Rightarrow> error + string"
  set_service_url :: "string \<Rightarrow> error option"
  recognize :: "event list \<Rightarrow> client \<Rightarrow> request \<Rightarrow> error + json"
  json_dump_fails :: "json \<Rightarrow> (error \<times> content) option"
  print_fails :: "string \<Rightarrow> error option"

type_synonym 'a io = "world \<Rightarrow> (error + 'a) \<times> world"

definition thn :: "'a io \<Rightarrow> ('a \<Rightarrow> 'b io) \<Rightarrow> 'b io" where
  "thn m f w = (case m w of (Inl e, w') \<Rightarrow> (Inl e, w') | (Inr x, w') \<Rightarrow> f x w')"

definition emit :: "event \<Rightarrow> world \<Rightarrow> world" where
  "emit ev w = w\<lparr>trace := trace w @ [ev]\<rparr>"

definition pure :: "error + 'a \<Rightarrow> 'a io" where
  "pure r w = (r, w)"

text \<open>The events a run added to the trace, and what they were about.\<close>

definition new_events :: "world \<Rightarrow> world \<Rightarrow> event list" where
  "new_events w w' = drop (length (trace w)) (trace w')"

definition requests_of :: "event list \<Rightarrow> request list" where
  "requests_of es = concat (map (\<lambda>ev. case ev of Recognize c r \<Rightarrow> [r] | _ \<Rightarrow> []) es)"

definition writes_of :: "event list \<Rightarrow> string list" where
  "writes_of es = concat (map (\<lambda>ev. case ev of Wrote p j \<Rightarrow> [p] | _ \<Rightarrow> []) es)"


definition clients_of :: "event list \<Rightarrow> string list" where
  "clients_of es = concat (map (\<lambda>ev. case ev of Client_built a \<Rightarrow> [a] | _ \<Rightarrow> []) es)"

definition loads_of :: "event list \<Rightarrow> string list" where
  "loads_of es = concat (map (\<lambda>ev. case ev of Load_dotenv p \<Rightarrow> [p] | _ \<Rightarrow> []) es)"

section \<open>The standard library\<close>

text \<open>\<^verbatim>\<open>p.rfind(c)\<close>: the highest index of \<open>c\<close> in \<open>p\<close>, or -1.\<close>

definition rfind :: "string \<Rightarrow> char \<Rightarrow> int" where
  "rfind p c =
     (if c \<in> set p then int (length p) - 1 - int (length (takeWhile (\<lambda>x. x \<noteq> c) (rev p)))
      else - 1)"

text \<open>\<^verbatim>\<open>posixpath.join(a, b)\<close>.\<close>

definition os_path_join :: "string \<Rightarrow> string \<Rightarrow> string" where
  "os_path_join a b =
     (if (case b of [] \<Rightarrow> False | c # _ \<Rightarrow> c = CHR ''/'') then b
      else if a = [] \<or> last a = CHR ''/'' then a @ b
      else a @ ''/'' @ b)"

text \<open>\<^verbatim>\<open>posixpath.dirname(p)\<close> and \<^verbatim>\<open>posixpath.basename(p)\<close>.\<close>

definition os_path_dirname :: "string \<Rightarrow> string" where
  "os_path_dirname p =
     (let i = rfind p CHR ''/'' + 1;
          head = take (nat i) p
      in if head \<noteq> [] \<and> head \<noteq> replicate (length head) CHR ''/''
         then rev (dropWhile (\<lambda>c. c = CHR ''/'') (rev head))
         else head)"

definition os_path_basename :: "string \<Rightarrow> string" where
  "os_path_basename p = drop (nat (rfind p CHR ''/'' + 1)) p"

text \<open>
  \<^verbatim>\<open>genericpath._splitext\<close>: the loop skips the leading dots of the last component and
  splits at the last dot as soon as it meets another character before it.
\<close>

function splitext_loop :: "string \<Rightarrow> nat \<Rightarrow> nat \<Rightarrow> string \<times> string" where
  "splitext_loop p filenameIndex dotIndex =
     (if filenameIndex < dotIndex then
        (if p ! filenameIndex \<noteq> CHR ''.'' then (take dotIndex p, drop dotIndex p)
         else splitext_loop p (Suc filenameIndex) dotIndex)
      else (p, []))"
  by pat_completeness auto
termination
  by (relation "measure (\<lambda>(p, filenameIndex, dotIndex). dotIndex - filenameIndex)") auto

declare splitext_loop.simps [simp del]

definition splitext :: "string \<Rightarrow> string \<times> string" where
  "splitext p =
     (let sepIndex = rfind p CHR ''/'';
          dotIndex = rfind p CHR ''.''
      in if dotIndex > sepIndex then splitext_loop p (nat (sepIndex + 1)) (nat dotIndex)
         else (p, []))"

definition isfile :: "world \<Rightarrow> string \<Rightarrow> bool" where
  "isfile w p = (case fs w p of Some (File c) \<Rightarrow> True | _ \<Rightarrow> False)"

definition listdir :: "string \<Rightarrow> string list io" where
  "listdir p w =
     (case fs w p of
        None \<Rightarrow> (Inl (FileNotFoundError p), w)
      | Some (File c) \<Rightarrow> (Inl (NotADirectoryError p), w)
      | Some (Dir names) \<Rightarrow> (Inr names, w))"

text \<open>
  \<^verbatim>\<open>open(p, 'w')\<close> followed by writing \<open>c\<close>: the directory of \<open>p\<close> must exist, \<open>p\<close> must
  not be a directory; the file is created or overwritten.
\<close>

definition write_file :: "string \<Rightarrow> content \<Rightarrow> world \<Rightarrow> error + world" where
  "write_file p c w =
     (case fs w (os_path_dirname p) of
        None \<Rightarrow> Inl (FileNotFoundError p)
      | Some (File c') \<Rightarrow> Inl (NotADirectoryError p)
      | Some (Dir names) \<Rightarrow>
          (case fs w p of
             Some (Dir names') \<Rightarrow> Inl (IsADirectoryError p)
           | _ \<Rightarrow>
               Inr (w\<lparr>fs := (fs w)
                      (os_path_dirname p \<mapsto>
                         Dir (if os_path_basename p \<in> set names then names
                              else names @ [os_path_basename p]),
                       p \<mapsto> File c)\<rparr>)))"

text \<open>\<^verbatim>\<open>xs[i]\<close> on a list and \<^verbatim>\<open>d[k]\<close> on a dict.\<close>

definition index :: "'a list \<Rightarrow> nat \<Rightarrow> error + 'a" where
  "index xs i = (if i < length xs then Inr (xs ! i) else Inl IndexError)"

definition getitem :: "(string \<rightharpoonup> 'v) \<Rightarrow> string \<Rightarrow> error + 'v" where
  "getitem d k = (case d k of None \<Rightarrow> Inl (KeyError k) | Some v \<Rightarrow> Inr v)"

definition quoted :: "string \<Rightarrow> string" where
  "quoted s = [CHR 0x27] @ s @ [CHR 0x27]"

section \<open>The program\<close>

text \<open>
  One definition per function of \<^verbatim>\<open>stt_recognize.py\<close>, under its name.  The loop of
  \<^verbatim>\<open>main\<close> is \<open>main_loop\<close>, a recursion over the directory listing;
  \<^verbatim>\<open>print_json\<close> is left out, nothing calls it.
\<close>

subsection \<open>\<^verbatim>\<open>load_env\<close>\<close>

text \<open>
  The loop over \<open>keys\<close>, with the dict \<open>env\<close> built so far.  \<^verbatim>\<open>os.getenv(key)\<close> is
  \<open>environ w key\<close>.  The last branch of the source (\<^verbatim>\<open>else\<close> after
  \<^verbatim>\<open>key in env\<close> and \<^verbatim>\<open>key not in env\<close>) is kept as it is written.
\<close>

fun load_env_keys :: "string list \<Rightarrow> (string \<rightharpoonup> string) \<Rightarrow> (string \<rightharpoonup> string) io" where
  "load_env_keys [] env w = (Inr env, w)"
| "load_env_keys (key # keys) env w =
     (case environ w key of
        None \<Rightarrow>
          (Inl (SystemExit 1), emit (Printed (''The value of '' @ quoted key @ '' is empty.'')) w)
      | Some v \<Rightarrow>
          if v = [] then
            (Inl (SystemExit 1), emit (Printed (''The value of '' @ quoted key @ '' is empty.'')) w)
          else if env key \<noteq> None then
            (Inl (SystemExit 1), emit (Printed (''Repeated key: '' @ quoted key @ ''.'')) w)
          else if env key = None then
            load_env_keys keys (env(key \<mapsto> v)) w
          else
            (Inl (SystemExit 1), emit (Printed ''Unexpected error on 'os.getenv(key)'.'') w))"

text \<open>\<open>script\<close> is the value of \<^verbatim>\<open>__file__\<close>.\<close>

definition load_env :: "externals \<Rightarrow> string \<Rightarrow> string \<Rightarrow> string list \<Rightarrow> (string \<rightharpoonup> string) io" where
  "load_env X script env_file keys w =
     (let dotenv_path = os_path_join (os_path_dirname script) env_file;
          w1 = emit (Load_dotenv dotenv_path) w
      in case load_dotenv X (fs w) dotenv_path (environ w) of
           Inl e \<Rightarrow> (Inl e, w1)
         | Inr E \<Rightarrow> load_env_keys keys Map.empty (w1\<lparr>environ := E\<rparr>))"

subsection \<open>\<^verbatim>\<open>instantiate_stt\<close>\<close>

definition instantiate_stt :: "externals \<Rightarrow> string \<Rightarrow> string \<Rightarrow> client io" where
  "instantiate_stt X api_key url_service w =
     (case iam_authenticator X api_key of
        Inl e \<Rightarrow> (Inl e, w)
      | Inr auth \<Rightarrow>
          (let w1 = emit (Client_built auth) w
           in case set_service_url X url_service of
                Some e \<Rightarrow> (Inl e, w1)
              | None \<Rightarrow> (Inr \<lparr>authenticator = auth, service_url = url_service\<rparr>, w1)))"

subsection \<open>\<^verbatim>\<open>extract_keywords\<close>\<close>

text \<open>\<^verbatim>\<open>df.iloc[:, j].values.tolist()\<close>: cell \<open>j\<close> of every row; no column \<open>j\<close> is an IndexError.\<close>

definition iloc_column :: "data_frame \<Rightarrow> nat \<Rightarrow> error + scalar list" where
  "iloc_column df j =
     (if j < length (columns df) then Inr (map (\<lambda>r. r ! j) (rows df)) else Inl IndexError)"

definition extract_keywords :: "externals \<Rightarrow> string \<Rightarrow> int \<Rightarrow> scalar list io" where
  "extract_keywords X excel_pathfile header w =
     (let w1 = emit (Read_excel excel_pathfile header) w
      in case read_excel X (fs w) excel_pathfile header of
           Inl e \<Rightarrow> (Inl e, w1)
         | Inr data_frame \<Rightarrow> (iloc_column data_frame 0, w1))"

subsection \<open>\<^verbatim>\<open>save_json\<close> and \<^verbatim>\<open>sst_response\<close>\<close>

definition json_pathfile :: "string \<Rightarrow> string \<Rightarrow> string" where
  "json_pathfile transcripts_folder audio_file =
     transcripts_folder @ ''/'' @ fst (splitext audio_file) @ ''.json''"

text \<open>
  \<^verbatim>\<open>open\<close> comes first and can refuse the path.  Then \<^verbatim>\<open>json.dump\<close> writes the
  document, or raises and leaves a part of it in the file.  Then \<^verbatim>\<open>print\<close> reports the
  path, or raises, the file being written already.
\<close>

definition save_json :: "externals \<Rightarrow> json \<Rightarrow> string \<Rightarrow> string \<Rightarrow> unit io" where
  "save_json X data_json audio_file transcripts_folder w =
     (let p = json_pathfile transcripts_folder audio_file
      in case json_dump_fails X data_json of
           Some (e, part) \<Rightarrow>
             (case write_file p part w of
                Inl e' \<Rightarrow> (Inl e', w)
              | Inr w1 \<Rightarrow> (Inl e, w1))
         | None \<Rightarrow>
             (case write_file p (JsonText data_json) w of
                Inl e' \<Rightarrow> (Inl e', w)
              | Inr w1 \<Rightarrow>
                  (case print_fails X (quoted p @ '' was saved sucessful'') of
                     Some e \<Rightarrow> (Inl e, emit (Wrote p data_json) w1)
                   | None \<Rightarrow>
                       (Inr (),
                        emit (Printed (quoted p @ '' was saved sucessful''))
                          (emit (Wrote p data_json) w1)))))"

definition recognize_request :: "content \<Rightarrow> scalar list \<Rightarrow> string option \<Rightarrow> request" where
  "recognize_request a kws custom_id =
     \<lparr>audio = a,
      content_type = ''audio/mp3'',
      model = ''es-CO_NarrowbandModel'',
      customization_id = custom_id,
      keyword_list = kws,
      word_alternatives_threshold = 0.5,
      keywords_threshold = 0.5,
      speaker_labels = True,
      inactivity_timeout = - 1,
      max_alternatives = 3\<rparr>"

definition sst_response ::
  "externals \<Rightarrow> string \<Rightarrow> client \<Rightarrow> scalar list \<Rightarrow> string option \<Rightarrow> json io" where
  "sst_response X audio_pathfile speech_to_text kws custom_id w =
     (case fs w audio_pathfile of
        None \<Rightarrow> (Inl (FileNotFoundError audio_pathfile), w)
      | Some (Dir names) \<Rightarrow> (Inl (IsADirectoryError audio_pathfile), w)
      | Some (File a) \<Rightarrow>
          (recognize X (trace w) speech_to_text (recognize_request a kws custom_id),
           emit (Recognize speech_to_text (recognize_request a kws custom_id)) w))"

subsection \<open>\<^verbatim>\<open>main\<close>\<close>

definition audios_folder :: string where
  "audios_folder = ''audios''"

definition json_folder :: string where
  "json_folder = ''json''"

text \<open>What \<^verbatim>\<open>main\<close> does with one regular file: the body of the \<^verbatim>\<open>if\<close> in its loop.\<close>

definition transcribe ::
  "externals \<Rightarrow> client \<Rightarrow> scalar list \<Rightarrow> (string \<rightharpoonup> string) \<Rightarrow> string \<Rightarrow> unit io" where
  "transcribe X speech_to_text kws env audio_file =
     thn (pure (getitem env ''custom_id'')) (\<lambda>custom_id.
     thn (sst_response X (os_path_join audios_folder audio_file) speech_to_text kws (Some custom_id))
       (\<lambda>data_json.
     save_json X data_json audio_file json_folder))"

fun main_loop ::
  "externals \<Rightarrow> client \<Rightarrow> scalar list \<Rightarrow> (string \<rightharpoonup> string) \<Rightarrow> string list \<Rightarrow> unit io" where
  "main_loop X speech_to_text kws env [] w = (Inr (), w)"
| "main_loop X speech_to_text kws env (audio_file # rest) w =
     (if isfile w (os_path_join audios_folder audio_file) then
        (case transcribe X speech_to_text kws env audio_file w of
           (Inl e, w1) \<Rightarrow> (Inl e, w1)
         | (Inr u, w1) \<Rightarrow> main_loop X speech_to_text kws env rest w1)
      else main_loop X speech_to_text kws env rest w)"

text \<open>
  The regular files among the entries \<open>names\<close> of the input directory, each with its
  content: the entries for which \<^verbatim>\<open>os.path.isfile\<close> holds, in the order of the listing.
\<close>

definition regular_files :: "world \<Rightarrow> string list \<Rightarrow> (string \<times> content) list" where
  "regular_files w names =
     concat (map (\<lambda>n. case fs w (os_path_join audios_folder n) of
                          Some (File a) \<Rightarrow> [(n, a)]
                        | _ \<Rightarrow> []) names)"

definition main :: "externals \<Rightarrow> string \<Rightarrow> string list \<Rightarrow> unit io" where
  "main X script argv =
     thn (pure (index argv 1)) (\<lambda>env_file.
     thn (pure (index argv 2)) (\<lambda>keywords_filepath.
     thn (load_env X script env_file [''api_key'', ''api_url'', ''base_lang'', ''custom_id''])
       (\<lambda>env.
     thn (pure (getitem env ''api_key'')) (\<lambda>api_key.
     thn (pure (getitem env ''api_url'')) (\<lambda>api_url.
     thn (instantiate_stt X api_key api_url) (\<lambda>speech_to_text.
     thn (extract_keywords X keywords_filepath 0) (\<lambda>kws.
     thn (listdir audios_folder) (\<lambda>names.
     main_loop X speech_to_text kws env names))))))))"

section \<open>The \<^verbatim>\<open>header\<close> argument of pandas\<close>

text \<open>
  \<^verbatim>\<open>pandas.read_excel(path, header=h)\<close> on a workbook, as the pandas documentation
  defines \<^verbatim>\<open>header\<close>: the row (0-indexed) to use for the column labels of the parsed
  frame.  The rows above row \<open>h\<close> are dropped, row \<open>h\<close> gives the labels and the rows
  below it are the data.  A negative \<open>h\<close> or one past the last row is refused.  Sheets
  with empty cells, which pandas treats in ways of its own, are outside what the theorems
  below use.
\<close>

definition pandas_read_excel :: "(string \<rightharpoonup> entry) \<Rightarrow> string \<Rightarrow> int \<Rightarrow> error + data_frame" where
  "pandas_read_excel files p h =
     (case files p of
        None \<Rightarrow> Inl (FileNotFoundError p)
      | Some (Dir names) \<Rightarrow> Inl (IsADirectoryError p)
      | Some (File (Workbook sheet)) \<Rightarrow>
          if 0 \<le> h \<and> nat h < length sheet
          then Inr \<lparr>columns = sheet ! nat h, rows = drop (Suc (nat h)) sheet\<rparr>
          else Inl (LibraryError ''ValueError'')
      | Some (File c) \<Rightarrow> Inl (LibraryError ''ValueError''))"

section \<open>A concrete run\<close>

text \<open>
  An instance of the libraries and of the world, on which the theorems below are
  exercised.  \<open>plain_dotenv\<close> is what python-dotenv does with a file of plain
  \<^verbatim>\<open>KEY=VALUE\<close> lines: every variable of the file that the process environment does
  not have yet is set in it, a variable that is already set is kept, and a path that is
  not a file loads nothing.
\<close>

fun lines_of :: "string \<Rightarrow> string list" where
  "lines_of [] = [[]]"
| "lines_of (c # cs) =
     (if c = CHR 0x0A then [] # lines_of cs
      else (case lines_of cs of [] \<Rightarrow> [[c]] | l # ls \<Rightarrow> (c # l) # ls))"

definition bindings_of :: "string \<Rightarrow> (string \<times> string) list" where
  "bindings_of l =
     (if CHR ''='' \<in> set l
      then [(takeWhile (\<lambda>c. c \<noteq> CHR ''='') l, drop 1 (dropWhile (\<lambda>c. c \<noteq> CHR ''='') l))]
      else [])"

definition setdefault :: "string \<times> string \<Rightarrow> (string \<rightharpoonup> string) \<Rightarrow> (string \<rightharpoonup> string)" where
  "setdefault b E = (if E (fst b) = None then E(fst b \<mapsto> snd b) else E)"

definition plain_dotenv ::
  "(string \<rightharpoonup> entry) \<Rightarrow> string \<Rightarrow> (string \<rightharpoonup> string) \<Rightarrow> error + (string \<rightharpoonup> string)" where
  "plain_dotenv files p E =
     (case files p of
        Some (File (Bytes txt)) \<Rightarrow> Inr (fold setdefault (concat (map bindings_of (lines_of txt))) E)
      | _ \<Rightarrow> Inr E)"

definition demo_frame :: data_frame where
  "demo_frame =
     \<lparr>columns = [SStr ''keyword'', SStr ''weight''],
      rows = [[SStr ''factura'', SInt 3], [SStr ''saldo'', SInt 1], [SStr ''factura'', SInt 2]]\<rparr>"

definition demo_result :: json where
  "demo_result = JObj [(''results'', JArr [])]"

definition demo_libs :: externals where
  "demo_libs =
     \<lparr>load_dotenv = plain_dotenv,
      read_excel = (\<lambda>files p h.
        if p = ''keywords.xlsx'' \<and> h = 0 then Inr demo_frame else Inl (FileNotFoundError p)),
      iam_authenticator = Inr,
      set_service_url = (\<lambda>u. None),
      recognize = (\<lambda>h c r. Inr demo_result),
      json_dump_fails = (\<lambda>j. None),
      print_fails = (\<lambda>s. None)\<rparr>"

text \<open>The same libraries, with a service that fails on the recording \<^verbatim>\<open>b.mp3\<close>.\<close>

definition failing_libs :: externals where
  "failing_libs =
     demo_libs\<lparr>recognize := (\<lambda>h c r.
        if audio r = Bytes ''BBB'' then Inl (LibraryError ''ApiException'')
        else Inr demo_result)\<rparr>"

definition demo_env_text :: string where
  "demo_env_text =
     ''api_key=KEY1'' @ [CHR 0x0A] @ ''api_url=https://stt.example'' @ [CHR 0x0A] @
     ''base_lang=es-CO'' @ [CHR 0x0A] @ ''custom_id=CUSTOM1''"

definition demo_files :: "string \<rightharpoonup> entry" where
  "demo_files =
     [''src/.env'' \<mapsto> File (Bytes demo_env_text),
      ''src/partial.env'' \<mapsto> File (Bytes ''api_key=KEY1''),
      ''keywords.xlsx'' \<mapsto> File (Bytes ''xlsx''),
      ''audios'' \<mapsto> Dir [''a.mp3'', ''sub'', ''b.mp3''],
      ''audios/a.mp3'' \<mapsto> File (Bytes ''AAA''),
      ''audios/sub'' \<mapsto> Dir [],
      ''audios/b.mp3'' \<mapsto> File (Bytes ''BBB''),
      ''json'' \<mapsto> Dir []]"

definition demo_world :: world where
  "demo_world = \<lparr>environ = Map.empty, fs = demo_files, trace = []\<rparr>"

text \<open>A second world: three recordings and no sub-directory.\<close>

definition three_files :: world where
  "three_files =
     demo_world\<lparr>fs := (fs demo_world)
       (''audios'' \<mapsto> Dir [''a.mp3'', ''b.mp3'', ''c.mp3''],
        ''audios/c.mp3'' \<mapsto> File (Bytes ''CCC''))\<rparr>"

definition demo_client :: client where
  "demo_client = \<lparr>authenticator = ''KEY1'', service_url = ''https://stt.example''\<rparr>"

definition demo_keywords :: "scalar list" where
  "demo_keywords = [SStr ''factura'', SStr ''saldo'', SStr ''factura'']"

text \<open>A third world: two recordings with the same name up to the extension.\<close>

definition same_root_files :: world where
  "same_root_files =
     demo_world\<lparr>fs := (fs demo_world)
       (''audios'' \<mapsto> Dir [''a.mp3'', ''sub'', ''a.wav''],
        ''audios/a.wav'' \<mapsto> File (Bytes ''WWW''))\<rparr>"

text \<open>
  Two workbooks of three keywords in one column: \<^verbatim>\<open>titled.xlsx\<close> with one title row
  above them, \<^verbatim>\<open>bare.xlsx\<close> with none.  \<open>sheet_libs\<close> reads them as pandas does.
\<close>

definition sheet_world :: world where
  "sheet_world =
     demo_world\<lparr>fs := (fs demo_world)
       (''titled.xlsx'' \<mapsto>
          File (Workbook [[SStr ''keyword''], [SStr ''factura''], [SStr ''saldo''], [SStr ''factura'']]),
        ''bare.xlsx'' \<mapsto>
          File (Workbook [[SStr ''factura''], [SStr ''saldo''], [SStr ''factura'']]))\<rparr>"

definition sheet_libs :: externals where
  "sheet_libs = demo_libs\<lparr>read_excel := pandas_read_excel\<rparr>"

definition demo_environ :: "string \<rightharpoonup> string" where
  "demo_environ =
     [''api_key'' \<mapsto> ''KEY1'', ''api_url'' \<mapsto> ''https://stt.example'',
      ''base_lang'' \<mapsto> ''es-CO'', ''custom_id'' \<mapsto> ''CUSTOM1'']"

definition demo_argv :: "string list" where
  "demo_argv = [''stt_recognize.py'', ''.env'', ''keywords.xlsx'']"

definition demo_script :: string where
  "demo_script = ''src/stt_recognize.py''"

section \<open>Paths\<close>

lemma takeWhile_rev_last:
  "c \<notin> set ys \<Longrightarrow> takeWhile (\<lambda>x. x \<noteq> c) (rev ys @ c # zs) = rev ys"
  by (auto simp: takeWhile_tail)

lemma rfind_last:
  assumes "c \<in> set p"
  shows "\<exists>xs ys. p = xs @ c # ys \<and> c \<notin> set ys \<and> rfind p c = int (length xs)"
proof -
  from split_list_last [OF assms] obtain xs ys where p: "p = xs @ c # ys" and n: "c \<notin> set ys"
    by blast
  have "takeWhile (\<lambda>x. x \<noteq> c) (rev p) = rev ys"
    using n by (simp add: p takeWhile_rev_last)
  then have "rfind p c = int (length xs)"
    using assms by (simp add: rfind_def p)
  with p n show ?thesis by blast
qed

lemma rfind_absent: "c \<notin> set p \<Longrightarrow> rfind p c = - 1"
  by (simp add: rfind_def)

lemma rfind_append_last: "c \<notin> set ys \<Longrightarrow> rfind (xs @ c # ys) c = int (length xs)"
  by (simp add: rfind_def takeWhile_rev_last)

lemma splitext_loop_cases:
  "splitext_loop p i d = (p, []) \<or> splitext_loop p i d = (take d p, drop d p)"
  by (induction p i d rule: splitext_loop.induct) (subst splitext_loop.simps, subst (2) splitext_loop.simps, simp)

lemma splitext_cases:
  "splitext p = (p, []) \<or>
   (rfind p CHR ''/'' < rfind p CHR ''.'' \<and>
    splitext p = (take (nat (rfind p CHR ''.'')) p, drop (nat (rfind p CHR ''.'')) p))"
  using splitext_loop_cases [of p "nat (rfind p CHR ''/'' + 1)" "nat (rfind p CHR ''.'')"]
  by (auto simp: splitext_def Let_def)


lemma splitext_ext:
  "snd (splitext p) = [] \<or>
   (hd (snd (splitext p)) = CHR ''.'' \<and> CHR ''.'' \<notin> set (tl (snd (splitext p)))
    \<and> CHR ''/'' \<notin> set (snd (splitext p)))"
proof -
  consider "splitext p = (p, [])"
    | "rfind p CHR ''/'' < rfind p CHR ''.''"
      "splitext p = (take (nat (rfind p CHR ''.'')) p, drop (nat (rfind p CHR ''.'')) p)"
    using splitext_cases [of p] by blast
  then show ?thesis
  proof cases
    case 1
    then show ?thesis by simp
  next
    case 2
    have dot: "CHR ''.'' \<in> set p"
    proof (rule ccontr)
      assume "CHR ''.'' \<notin> set p"
      then have "rfind p CHR ''.'' = - 1" by (rule rfind_absent)
      moreover have "- 1 \<le> rfind p CHR ''/''"
        using length_takeWhile_le [of "\<lambda>x. x \<noteq> CHR ''/''" "rev p"] by (simp add: rfind_def)
      ultimately show False using 2(1) by simp
    qed
    from rfind_last [OF dot] obtain xs ys where
      p: "p = xs @ CHR ''.'' # ys" and n: "CHR ''.'' \<notin> set ys"
      and r: "rfind p CHR ''.'' = int (length xs)" by blast
    have ext: "snd (splitext p) = CHR ''.'' # ys"
      using 2(2) r p by simp
    have "CHR ''/'' \<notin> set ys"
    proof
      assume "CHR ''/'' \<in> set ys"
      then obtain us vs where ys: "ys = us @ CHR ''/'' # vs" and nv: "CHR ''/'' \<notin> set vs"
        using split_list_last by fastforce
      have "rfind p CHR ''/'' = int (length (xs @ CHR ''.'' # us))"
        using rfind_append_last [OF nv, of "xs @ CHR ''.'' # us"] by (simp add: p ys)
      then show False using 2(1) r by simp
    qed
    then show ?thesis using ext n by simp
  qed
qed

section \<open>Writing the result\<close>

lemma write_file_trace: "write_file p c w = Inr w1 \<Longrightarrow> trace w1 = trace w \<and> environ w1 = environ w"
  by (auto simp: write_file_def split: option.splits entry.splits)


lemma new_events_append: "trace w' = trace w @ es \<Longrightarrow> new_events w w' = es"
  by (simp add: new_events_def)

lemma save_json_trace:
  "\<exists>es. trace (snd (save_json X data_json audio_file folder w)) = trace w @ es
     \<and> (es = [] \<or> es = [Wrote (json_pathfile folder audio_file) data_json]
          \<or> es = [Wrote (json_pathfile folder audio_file) data_json,
                   Printed (quoted (json_pathfile folder audio_file) @ '' was saved sucessful'')])"
  by (auto simp: save_json_def Let_def emit_def dest: write_file_trace
      split: sum.splits option.splits)

lemma save_json_environ:
  "environ (snd (save_json X j n folder w)) = environ w"
  by (auto simp: save_json_def Let_def emit_def dest: write_file_trace
      split: sum.splits option.splits)


section \<open>Loading the configuration\<close>

lemma load_env_keys_prefix:
  assumes "distinct pre"
    and "\<forall>k\<in>set pre. environ w k \<noteq> None \<and> environ w k \<noteq> Some []"
    and "set pre \<inter> dom env = {}"
  shows "load_env_keys (pre @ rest) env w = load_env_keys rest (env ++ (environ w |` set pre)) w"
  using assms
proof (induction pre arbitrary: env)
  case Nil
  then show ?case by simp
next
  case (Cons k pre)
  from Cons.prems obtain v where v: "environ w k = Some v" "v \<noteq> []" by auto
  from Cons.prems have fresh: "env k = None" by auto
  have step: "load_env_keys ((k # pre) @ rest) env w = load_env_keys (pre @ rest) (env(k \<mapsto> v)) w"
    using v fresh by simp
  have d: "distinct pre" and p: "\<forall>k\<in>set pre. environ w k \<noteq> None \<and> environ w k \<noteq> Some []"
    and f: "set pre \<inter> dom (env(k \<mapsto> v)) = {}"
    using Cons.prems by auto
  have ih: "load_env_keys (pre @ rest) (env(k \<mapsto> v)) w =
            load_env_keys rest (env(k \<mapsto> v) ++ (environ w |` set pre)) w"
    by (rule Cons.IH [OF d p f])
  have "env(k \<mapsto> v) ++ (environ w |` set pre) = env ++ (environ w |` set (k # pre))"
    using v Cons.prems
    by (auto simp: fun_eq_iff map_add_def restrict_map_def split: option.splits)
  with step ih show ?case by simp
qed

lemma load_env_keys_exits:
  assumes "(\<exists>k\<in>set keys. environ w k = None \<or> environ w k = Some [])
           \<or> \<not> distinct keys \<or> set keys \<inter> dom env \<noteq> {}"
  shows "\<exists>k\<in>set keys. \<exists>msg.
           (msg = ''The value of '' @ quoted k @ '' is empty.''
            \<or> msg = ''Repeated key: '' @ quoted k @ ''.'')
           \<and> load_env_keys keys env w = (Inl (SystemExit 1), emit (Printed msg) w)"
  using assms
proof (induction keys arbitrary: env)
  case Nil
  then show ?case by simp
next
  case (Cons k keys)
  show ?case
  proof (cases "environ w k = None \<or> environ w k = Some []")
    case True
    then show ?thesis by (auto split: option.splits)
  next
    case present: False
    then obtain v where v: "environ w k = Some v" "v \<noteq> []" by auto
    show ?thesis
    proof (cases "env k = None")
      case False
      then show ?thesis using v by auto
    next
      case True
      have "(\<exists>k\<in>set keys. environ w k = None \<or> environ w k = Some [])
            \<or> \<not> distinct keys \<or> set keys \<inter> dom (env(k \<mapsto> v)) \<noteq> {}"
        using Cons.prems present True by auto
      from Cons.IH [OF this] obtain k' msg where
        "k' \<in> set keys"
        "msg = ''The value of '' @ quoted k' @ '' is empty.''
           \<or> msg = ''Repeated key: '' @ quoted k' @ ''.''"
        "load_env_keys keys (env(k \<mapsto> v)) w = (Inl (SystemExit 1), emit (Printed msg) w)"
        by blast
      then show ?thesis using v True by auto
    qed
  qed
qed

lemma load_env_keys_repeated:
  assumes "distinct pre" and "set pre \<inter> dom env = {}" and "k \<in> set pre \<union> dom env"
  shows "load_env_keys (pre @ k # post) env w =
           (Inl (SystemExit 1),
            emit (Printed (case find (\<lambda>x. environ w x = None \<or> environ w x = Some []) (pre @ [k]) of
                             None \<Rightarrow> ''Repeated key: '' @ quoted k @ ''.''
                           | Some m \<Rightarrow> ''The value of '' @ quoted m @ '' is empty.'')) w)"
  using assms
proof (induction pre arbitrary: env)
  case Nil
  then show ?case by (auto split: option.splits)
next
  case (Cons x pre)
  show ?case
  proof (cases "environ w x = None \<or> environ w x = Some []")
    case True
    then show ?thesis by (auto split: option.splits)
  next
    case False
    then obtain v where v: "environ w x = Some v" "v \<noteq> []" by auto
    from Cons.prems have fresh: "env x = None" by auto
    have d: "distinct pre" and f: "set pre \<inter> dom (env(x \<mapsto> v)) = {}"
      and m: "k \<in> set pre \<union> dom (env(x \<mapsto> v))"
      using Cons.prems by auto
    have step: "load_env_keys ((x # pre) @ k # post) env w =
                load_env_keys (pre @ k # post) (env(x \<mapsto> v)) w"
      using v fresh by simp
    have found: "find (\<lambda>x. environ w x = None \<or> environ w x = Some []) ((x # pre) @ [k]) =
                 find (\<lambda>x. environ w x = None \<or> environ w x = Some []) (pre @ [k])"
      using v by simp
    show ?thesis
      unfolding step found by (rule Cons.IH [OF d f m])
  qed
qed

lemma first_repetition:
  "\<not> distinct keys \<Longrightarrow> \<exists>pre k post. keys = pre @ k # post \<and> distinct pre \<and> k \<in> set pre"
proof (induction keys rule: rev_induct)
  case Nil
  then show ?case by simp
next
  case (snoc x xs)
  show ?case
  proof (cases "distinct xs")
    case True
    with snoc.prems have "x \<in> set xs" by simp
    with True show ?thesis by blast
  next
    case False
    from snoc.IH [OF this] obtain pre k post where
      "xs = pre @ k # post" "distinct pre" "k \<in> set pre" by blast
    then have "xs @ [x] = pre @ k # (post @ [x])" by simp
    with \<open>distinct pre\<close> \<open>k \<in> set pre\<close> show ?thesis by blast
  qed
qed

lemma load_env_loaded:
  assumes "load_dotenv X (fs w) (os_path_join (os_path_dirname script) env_file) (environ w) = Inr E"
  shows "load_env X script env_file keys w =
           load_env_keys keys Map.empty
             (w\<lparr>environ := E,
                trace := trace w @ [Load_dotenv (os_path_join (os_path_dirname script) env_file)]\<rparr>)"
proof -
  have "(emit (Load_dotenv (os_path_join (os_path_dirname script) env_file)) w)\<lparr>environ := E\<rparr> =
        w\<lparr>environ := E,
          trace := trace w @ [Load_dotenv (os_path_join (os_path_dirname script) env_file)]\<rparr>"
    by (simp add: emit_def)
  then show ?thesis
    using assms by (simp add: load_env_def Let_def)
qed

lemma load_env_keys_world:
  "\<exists>msgs. length msgs \<le> 1 \<and> (fst (load_env_keys keys env w) = Inl (SystemExit 1) \<or> msgs = [])
     \<and> snd (load_env_keys keys env w) = w\<lparr>trace := trace w @ map Printed msgs\<rparr>"
proof (induction keys arbitrary: env)
  case Nil
  show ?case by (rule exI [of _ "[]"]) simp
next
  case (Cons k keys)
  have one: "\<And>m. \<exists>msgs. length msgs \<le> 1 \<and> emit (Printed m) w = w\<lparr>trace := trace w @ map Printed msgs\<rparr>"
  proof -
    fix m
    show "\<exists>msgs. length msgs \<le> 1 \<and> emit (Printed m) w = w\<lparr>trace := trace w @ map Printed msgs\<rparr>"
      by (rule exI [of _ "[m]"]) (simp add: emit_def)
  qed
  show ?case
    using Cons.IH one by (auto split: option.splits)
qed

lemma demo_path: "os_path_join (os_path_dirname demo_script) ''.env'' = ''src/.env''"
  by (simp add: os_path_join_def os_path_dirname_def demo_script_def rfind_def Let_def)

lemma demo_partial_path:
  "os_path_join (os_path_dirname demo_script) ''partial.env'' = ''src/partial.env''"
  by (simp add: os_path_join_def os_path_dirname_def demo_script_def rfind_def Let_def)

lemma demo_loaded:
  "load_dotenv demo_libs (fs demo_world) (os_path_join (os_path_dirname demo_script) ''.env'')
     (environ demo_world) = Inr demo_environ"
  by (simp add: demo_path demo_libs_def demo_world_def plain_dotenv_def demo_files_def
      demo_env_text_def bindings_of_def setdefault_def demo_environ_def)

lemma demo_partial_loaded:
  "load_dotenv demo_libs (fs demo_world)
     (os_path_join (os_path_dirname demo_script) ''partial.env'') (environ demo_world) =
   Inr [''api_key'' \<mapsto> ''KEY1'']"
  by (simp add: demo_partial_path demo_libs_def demo_world_def plain_dotenv_def demo_files_def
      bindings_of_def setdefault_def)

lemma find_append_case:
  "find P (xs @ ys) = (case find P xs of None \<Rightarrow> find P ys | Some x \<Rightarrow> Some x)"
  by (induction xs) auto

text \<open>
  Claim C3, amended.  When no key occurs twice in the list of required keys and every
  key of the list is in the loaded environment with a non-empty value, \<^verbatim>\<open>load_env\<close>
  returns a dict whose keys are exactly the required keys and whose values are the strings
  of the environment, unchanged.
\<close>

theorem load_env_returns_required_keys:
  assumes "load_dotenv X (fs w) (os_path_join (os_path_dirname script) env_file) (environ w) = Inr E"
    and "distinct keys"
    and "\<forall>k\<in>set keys. E k \<noteq> None \<and> E k \<noteq> Some []"
  shows "\<exists>env. fst (load_env X script env_file keys w) = Inr env
           \<and> dom env = set keys \<and> (\<forall>k\<in>set keys. env k = E k)"
proof -
  let ?w1 = "w\<lparr>environ := E,
               trace := trace w @ [Load_dotenv (os_path_join (os_path_dirname script) env_file)]\<rparr>"
  have present: "\<forall>k\<in>set keys. environ ?w1 k \<noteq> None \<and> environ ?w1 k \<noteq> Some []"
    using assms(3) by simp
  have "load_env_keys (keys @ []) Map.empty ?w1 =
        load_env_keys [] (Map.empty ++ (environ ?w1 |` set keys)) ?w1"
    by (rule load_env_keys_prefix [OF assms(2) present]) simp
  then have "load_env X script env_file keys w = (Inr (E |` set keys), ?w1)"
    by (simp add: load_env_loaded [OF assms(1)])
  moreover have "dom (E |` set keys) = set keys"
    using assms(3) by (auto simp: restrict_map_def dom_def)
  moreover have "\<forall>k\<in>set keys. (E |` set keys) k = E k"
    by simp
  ultimately show ?thesis by simp
qed

text \<open>
  The four keys of \<^verbatim>\<open>main\<close> on the environment file of the concrete run.
\<close>

theorem load_env_returns_required_keys_witness:
  "\<exists>env. fst (load_env demo_libs demo_script ''.env''
                [''api_key'', ''api_url'', ''base_lang'', ''custom_id''] demo_world) = Inr env
     \<and> dom env = {''api_key'', ''api_url'', ''base_lang'', ''custom_id''}
     \<and> env ''api_key'' = Some ''KEY1''
     \<and> env ''api_url'' = Some ''https://stt.example''
     \<and> env ''base_lang'' = Some ''es-CO''
     \<and> env ''custom_id'' = Some ''CUSTOM1''"
proof -
  have d: "distinct [''api_key'', ''api_url'', ''base_lang'', ''custom_id'']"
    by simp
  have p: "\<forall>k\<in>set [''api_key'', ''api_url'', ''base_lang'', ''custom_id''].
             demo_environ k \<noteq> None \<and> demo_environ k \<noteq> Some []"
    by (simp add: demo_environ_def)
  from load_env_returns_required_keys [OF demo_loaded d p] obtain env where
    "fst (load_env demo_libs demo_script ''.env''
       [''api_key'', ''api_url'', ''base_lang'', ''custom_id''] demo_world) = Inr env"
    "dom env = set [''api_key'', ''api_url'', ''base_lang'', ''custom_id'']"
    "\<forall>k\<in>set [''api_key'', ''api_url'', ''base_lang'', ''custom_id'']. env k = demo_environ k"
    by blast
  then show ?thesis
    by (intro exI [of _ env]) (simp add: demo_environ_def)
qed

text \<open>
  Claim C3 as stated fails for a list with a repeated key: \<^verbatim>\<open>api_key\<close> is loaded with
  the value \<^verbatim>\<open>KEY1\<close>, yet for the list \<^verbatim>\<open>['api_key', 'api_key']\<close> the function
  exits with status 1 and returns no dict.
\<close>

theorem load_env_present_key_twice:
  "load_dotenv demo_libs (fs demo_world) (os_path_join (os_path_dirname demo_script) ''.env'')
     (environ demo_world) = Inr demo_environ
   \<and> demo_environ ''api_key'' = Some ''KEY1''
   \<and> fst (load_env demo_libs demo_script ''.env'' [''api_key'', ''api_key''] demo_world) =
       Inl (SystemExit 1)"
  by (simp add: demo_loaded load_env_loaded [OF demo_loaded]) (simp add: demo_environ_def)

text \<open>
  Claim C8, amended.  When a key occurs twice in the list, \<^verbatim>\<open>load_env\<close> halts with
  exit status 1 after printing one line.  With \<open>k\<close> the first key that repeats an earlier
  one and \<open>pre\<close> the keys before it, the line is the repeated-key message for \<open>k\<close> when
  every key of \<open>pre\<close> has a non-empty value, and otherwise the missing-value message of
  the first key of \<open>pre\<close> that has none: the check for a value comes first in the loop.
\<close>

theorem load_env_repeated_key_halts:
  assumes "load_dotenv X (fs w) (os_path_join (os_path_dirname script) env_file) (environ w) = Inr E"
    and "\<not> distinct keys"
  shows "\<exists>pre k post. keys = pre @ k # post \<and> distinct pre \<and> k \<in> set pre
           \<and> load_env X script env_file keys w =
               (Inl (SystemExit 1),
                w\<lparr>environ := E,
                  trace := trace w @
                    [Load_dotenv (os_path_join (os_path_dirname script) env_file),
                     Printed (case find (\<lambda>x. E x = None \<or> E x = Some []) pre of
                                None \<Rightarrow> ''Repeated key: '' @ quoted k @ ''.''
                              | Some m \<Rightarrow> ''The value of '' @ quoted m @ '' is empty.'')]\<rparr>)"
proof -
  let ?p = "os_path_join (os_path_dirname script) env_file"
  let ?w1 = "w\<lparr>environ := E, trace := trace w @ [Load_dotenv ?p]\<rparr>"
  let ?absent = "\<lambda>x. E x = None \<or> E x = Some []"
  from first_repetition [OF assms(2)] obtain pre k post where
    keys: "keys = pre @ k # post" and d: "distinct pre" and k: "k \<in> set pre"
    by blast
  have "find ?absent (pre @ [k]) = find ?absent pre"
  proof (cases "?absent k")
    case True
    with k have "find ?absent pre \<noteq> None"
      by (auto simp: find_None_iff)
    then show ?thesis by (auto simp: find_append_case)
  next
    case False
    then show ?thesis by (auto simp: find_append_case split: option.splits)
  qed
  moreover have "load_env_keys (pre @ k # post) Map.empty ?w1 =
      (Inl (SystemExit 1),
       emit (Printed (case find (\<lambda>x. environ ?w1 x = None \<or> environ ?w1 x = Some []) (pre @ [k]) of
                        None \<Rightarrow> ''Repeated key: '' @ quoted k @ ''.''
                      | Some m \<Rightarrow> ''The value of '' @ quoted m @ '' is empty.'')) ?w1)"
    by (rule load_env_keys_repeated [OF d]) (use k in simp_all)
  ultimately have "load_env X script env_file keys w =
      (Inl (SystemExit 1),
       w\<lparr>environ := E,
         trace := trace w @
           [Load_dotenv ?p,
            Printed (case find ?absent pre of
                       None \<Rightarrow> ''Repeated key: '' @ quoted k @ ''.''
                     | Some m \<Rightarrow> ''The value of '' @ quoted m @ '' is empty.'')]\<rparr>)"
    by (simp add: load_env_loaded [OF assms(1)] keys emit_def)
  with keys d k show ?thesis by blast
qed

text \<open>
  The list \<^verbatim>\<open>['api_key', 'api_url', 'api_key']\<close> on the environment file of the concrete
  run.
\<close>

theorem load_env_repeated_key_halts_witness:
  "load_env demo_libs demo_script ''.env'' [''api_key'', ''api_url'', ''api_key''] demo_world =
     (Inl (SystemExit 1),
      demo_world\<lparr>environ := demo_environ,
        trace := [Load_dotenv ''src/.env'', Printed ''Repeated key: 'api_key'.'']\<rparr>)"
proof -
  have nd: "\<not> distinct [''api_key'', ''api_url'', ''api_key'']"
    by simp
  from load_env_repeated_key_halts [OF demo_loaded nd] obtain pre k post where
    keys: "[''api_key'', ''api_url'', ''api_key''] = pre @ k # post"
    and d: "distinct pre" and k: "k \<in> set pre"
    and run: "load_env demo_libs demo_script ''.env'' [''api_key'', ''api_url'', ''api_key'']
        demo_world =
      (Inl (SystemExit 1),
       demo_world\<lparr>environ := demo_environ,
         trace := trace demo_world @
           [Load_dotenv (os_path_join (os_path_dirname demo_script) ''.env''),
            Printed (case find (\<lambda>x. demo_environ x = None \<or> demo_environ x = Some []) pre of
                       None \<Rightarrow> ''Repeated key: '' @ quoted k @ ''.''
                     | Some m \<Rightarrow> ''The value of '' @ quoted m @ '' is empty.'')]\<rparr>)"
    by blast
  from keys d k have "pre = [''api_key'', ''api_url''] \<and> k = ''api_key''"
    by (auto simp: Cons_eq_append_conv)
  with run show ?thesis
    by (simp add: demo_path demo_environ_def quoted_def demo_world_def)
qed

text \<open>
  Claim C8 as stated fails when the repeated key has no value: with \<^verbatim>\<open>custom_id\<close>
  absent, the list \<^verbatim>\<open>['custom_id', 'custom_id']\<close> halts with the missing-value message,
  not with the repeated-key one.
\<close>

theorem load_env_absent_key_twice:
  "fst (load_env demo_libs demo_script ''partial.env'' [''custom_id'', ''custom_id''] demo_world) =
     Inl (SystemExit 1)
   \<and> trace (snd (load_env demo_libs demo_script ''partial.env'' [''custom_id'', ''custom_id'']
        demo_world)) =
     [Load_dotenv ''src/partial.env'', Printed ''The value of 'custom_id' is empty.'']"
  by (simp add: load_env_loaded [OF demo_partial_loaded])
    (simp add: demo_partial_path emit_def quoted_def demo_world_def)

lemma load_env_world:
  "fs (snd (load_env X script env_file keys w)) = fs w
   \<and> environ (snd (load_env X script env_file keys w)) =
       (case load_dotenv X (fs w) (os_path_join (os_path_dirname script) env_file) (environ w) of
          Inl e \<Rightarrow> environ w
        | Inr E \<Rightarrow> E)
   \<and> (\<exists>msgs. length msgs \<le> 1
        \<and> trace (snd (load_env X script env_file keys w)) =
            trace w @ Load_dotenv (os_path_join (os_path_dirname script) env_file) # map Printed msgs)"
proof -
  let ?p = "os_path_join (os_path_dirname script) env_file"
  show ?thesis
  proof (cases "load_dotenv X (fs w) ?p (environ w)")
    case (Inl e)
    then have "snd (load_env X script env_file keys w) = emit (Load_dotenv ?p) w"
      by (simp add: load_env_def Let_def)
    then have "fs (snd (load_env X script env_file keys w)) = fs w"
      "environ (snd (load_env X script env_file keys w)) = environ w"
      "trace (snd (load_env X script env_file keys w)) = trace w @ Load_dotenv ?p # map Printed []"
      by (simp_all add: emit_def)
    then show ?thesis using Inl by (metis list.size(3) sum.simps(5) zero_le)
  next
    case (Inr E)
    let ?w1 = "w\<lparr>environ := E, trace := trace w @ [Load_dotenv ?p]\<rparr>"
    from load_env_keys_world [of keys Map.empty ?w1] obtain msgs where m: "length msgs \<le> 1"
      "snd (load_env_keys keys Map.empty ?w1) = ?w1\<lparr>trace := trace ?w1 @ map Printed msgs\<rparr>"
      by blast
    then have "snd (load_env X script env_file keys w) = ?w1\<lparr>trace := trace ?w1 @ map Printed msgs\<rparr>"
      by (simp add: load_env_loaded [OF Inr])
    then have "fs (snd (load_env X script env_file keys w)) = fs w"
      "environ (snd (load_env X script env_file keys w)) = E"
      "trace (snd (load_env X script env_file keys w)) = trace w @ Load_dotenv ?p # map Printed msgs"
      by simp_all
    then show ?thesis using Inr m(1) by auto
  qed
qed

text \<open>
  Claim C9, amended.  \<^verbatim>\<open>load_env\<close> leaves the file system as it is; the process
  environment after it is the one \<^verbatim>\<open>load_dotenv\<close> produces (the one before, when
  \<^verbatim>\<open>load_dotenv\<close> raises); it calls \<^verbatim>\<open>load_dotenv\<close> once and prints at most one line.
  The loop over the keys itself changes neither the process environment nor the file
  system.
\<close>

theorem load_env_effects:
  "fs (snd (load_env X script env_file keys w)) = fs w
   \<and> environ (snd (load_env X script env_file keys w)) =
       (case load_dotenv X (fs w) (os_path_join (os_path_dirname script) env_file) (environ w) of
          Inl e \<Rightarrow> environ w
        | Inr E \<Rightarrow> E)
   \<and> (\<exists>msgs. length msgs \<le> 1
        \<and> trace (snd (load_env X script env_file keys w)) =
            trace w @ Load_dotenv (os_path_join (os_path_dirname script) env_file) # map Printed msgs)
   \<and> environ (snd (load_env_keys keys env w)) = environ w
   \<and> fs (snd (load_env_keys keys env w)) = fs w"
proof -
  from load_env_keys_world [of keys env w] obtain msgs where
    "snd (load_env_keys keys env w) = w\<lparr>trace := trace w @ map Printed msgs\<rparr>"
    by blast
  then have "environ (snd (load_env_keys keys env w)) = environ w"
    "fs (snd (load_env_keys keys env w)) = fs w"
    by simp_all
  with load_env_world [of X script env_file keys w] show ?thesis
    by simp
qed

text \<open>
  Claim C9 as stated fails: \<^verbatim>\<open>api_key\<close> is not in the process environment before
  \<^verbatim>\<open>load_env\<close> and is in it afterwards, because \<^verbatim>\<open>load_dotenv\<close> exports the variables
  of the file, which is how \<^verbatim>\<open>os.getenv\<close> sees them.
\<close>

theorem load_env_exports_variables:
  "environ demo_world ''api_key'' = None
   \<and> environ (snd (load_env demo_libs demo_script ''.env'' [''api_key''] demo_world)) ''api_key'' =
       Some ''KEY1''"
  by (simp add: load_env_loaded [OF demo_loaded]) (simp add: demo_world_def demo_environ_def)

section \<open>Directories and joined paths\<close>

lemma os_path_dirname_slash:
  assumes "CHR ''/'' \<notin> set b" and "d \<noteq> []" and "last d \<noteq> CHR ''/''"
  shows "os_path_dirname (d @ CHR ''/'' # b) = d"
proof -
  have r: "rfind (d @ CHR ''/'' # b) CHR ''/'' = int (length d)"
    by (rule rfind_append_last [OF assms(1)])
  have t: "take (Suc (length d)) (d @ CHR ''/'' # b) = d @ ''/''"
    by simp
  have "last d \<in> set d" using assms(2) by simp
  then have ne: "d @ ''/'' \<noteq> replicate (Suc (length d)) CHR ''/''"
    using assms(3) by (metis in_set_replicate in_set_conv_decomp append_Cons append_assoc)
  have "dropWhile (\<lambda>c. c = CHR ''/'') (rev d) = rev d"
    using assms(2,3) by (cases "rev d") (auto simp: last_rev [symmetric] simp del: last_rev)
  then have "rev (dropWhile (\<lambda>c. c = CHR ''/'') (rev (d @ ''/''))) = d"
    by simp
  with ne show ?thesis
    by (simp add: os_path_dirname_def r Let_def nat_add_distrib t del: take_append)
qed

lemma os_path_join_relative:
  assumes "d \<noteq> []" and "last d \<noteq> CHR ''/''" and "a = [] \<or> hd a \<noteq> CHR ''/''"
  shows "os_path_join d a = d @ ''/'' @ a"
  using assms by (cases a) (auto simp: os_path_join_def)





section \<open>The loop over the input directory\<close>

lemma transcribe_regular:
  assumes "fs w (os_path_join audios_folder n) = Some (File a)"
  shows "transcribe X stt kws env n w =
    (case env ''custom_id'' of
       None \<Rightarrow> (Inl (KeyError ''custom_id''), w)
     | Some cid \<Rightarrow>
        (case recognize X (trace w) stt (recognize_request a kws (Some cid)) of
           Inl e \<Rightarrow> (Inl e, emit (Recognize stt (recognize_request a kws (Some cid))) w)
         | Inr j \<Rightarrow>
             save_json X j n json_folder
               (emit (Recognize stt (recognize_request a kws (Some cid))) w)))"
  using assms
  by (simp add: transcribe_def thn_def pure_def getitem_def sst_response_def
      split: option.splits sum.splits)

lemma main_loop_append:
  "main_loop X stt kws env (xs @ ys) w =
     (case main_loop X stt kws env xs w of
        (Inl e, w1) \<Rightarrow> (Inl e, w1)
      | (Inr u, w1) \<Rightarrow> main_loop X stt kws env ys w1)"
  by (induction xs arbitrary: w) (auto split: prod.splits sum.splits)

text \<open>
  Claim C1.  Let the loop have processed the entries \<open>pre\<close> and reached the world \<open>w1\<close>,
  and let the recognition request for the next entry \<open>f\<close>, a regular file, raise \<open>e\<close>.
  Then the loop over the whole listing ends with \<open>e\<close>, whatever the later entries
  \<open>post\<close> are; the only event after \<open>w1\<close> is the failed request, so nothing is requested
  and nothing is written for \<open>post\<close>; and the file system is the one of \<open>w1\<close>, so what was
  written for \<open>pre\<close> is still there.
\<close>

theorem main_loop_stops_at_failed_request:
  assumes "main_loop X stt kws env pre w = (Inr (), w1)"
    and "fs w1 (os_path_join audios_folder f) = Some (File a)"
    and "env ''custom_id'' = Some cid"
    and "recognize X (trace w1) stt (recognize_request a kws (Some cid)) = Inl e"
  shows "\<exists>w'. main_loop X stt kws env (pre @ f # post) w = (Inl e, w')
           \<and> w' = w1\<lparr>trace := trace w1 @ [Recognize stt (recognize_request a kws (Some cid))]\<rparr>
           \<and> requests_of (new_events w1 w') = [recognize_request a kws (Some cid)]
           \<and> writes_of (new_events w1 w') = []
           \<and> fs w' = fs w1"
proof -
  let ?req = "recognize_request a kws (Some cid)"
  have "transcribe X stt kws env f w1 = (Inl e, emit (Recognize stt ?req) w1)"
    using assms(3,4) by (simp add: transcribe_regular [OF assms(2)])
  then have "main_loop X stt kws env (f # post) w1 = (Inl e, emit (Recognize stt ?req) w1)"
    using assms(2) by (simp add: isfile_def)
  then have "main_loop X stt kws env (pre @ f # post) w =
             (Inl e, w1\<lparr>trace := trace w1 @ [Recognize stt ?req]\<rparr>)"
    using assms(1) by (simp add: main_loop_append emit_def)
  then show ?thesis
    by (simp add: new_events_def requests_of_def writes_of_def)
qed



lemma regular_files_isfile:
  "map fst (regular_files w names) = filter (\<lambda>n. isfile w (os_path_join audios_folder n)) names"
  by (induction names) (auto simp: regular_files_def isfile_def split: option.splits entry.splits)

lemma regular_files_names: "(n, a) \<in> set (regular_files w names) \<Longrightarrow> n \<in> set names"
  using regular_files_isfile [of w names] by (metis filter_is_subset fst_conv image_eqI set_map subsetD)




lemmas run_defs =
  isfile_def transcribe_def thn_def pure_def getitem_def sst_response_def save_json_def
  write_file_def json_pathfile_def splitext_def splitext_loop.simps rfind_def os_path_join_def
  os_path_dirname_def os_path_basename_def emit_def audios_folder_def
  json_folder_def Let_def

lemmas demo_defs =
  demo_world_def three_files_def same_root_files_def demo_files_def demo_libs_def
  failing_libs_def demo_client_def demo_environ_def








lemma three_files_first:
  "fst (main_loop failing_libs demo_client demo_keywords demo_environ [''a.mp3''] three_files) =
     Inr ()"
  "trace (snd (main_loop failing_libs demo_client demo_keywords demo_environ [''a.mp3'']
     three_files)) =
     [Recognize demo_client (recognize_request (Bytes ''AAA'') demo_keywords (Some ''CUSTOM1'')),
      Wrote ''json/a.json'' demo_result,
      Printed '''json/a.json' was saved sucessful'']"
  "fs (snd (main_loop failing_libs demo_client demo_keywords demo_environ [''a.mp3'']
     three_files)) ''audios/b.mp3'' = Some (File (Bytes ''BBB''))"
  "fs (snd (main_loop failing_libs demo_client demo_keywords demo_environ [''a.mp3'']
     three_files)) ''json/a.json'' = Some (File (JsonText demo_result))"
  "fs (snd (main_loop failing_libs demo_client demo_keywords demo_environ [''a.mp3'']
     three_files)) ''json/c.json'' = None"
  by (simp_all add: run_defs demo_defs recognize_request_def quoted_def)

text \<open>
  Three recordings, the service failing on the second: the first has its output, the
  third is never requested.
\<close>

theorem main_loop_stops_at_failed_request_witness:
  "\<exists>w1 w'. main_loop failing_libs demo_client demo_keywords demo_environ [''a.mp3''] three_files =
              (Inr (), w1)
     \<and> main_loop failing_libs demo_client demo_keywords demo_environ
         [''a.mp3'', ''b.mp3'', ''c.mp3''] three_files = (Inl (LibraryError ''ApiException''), w')
     \<and> fs w' = fs w1
     \<and> map audio (requests_of (trace w')) = [Bytes ''AAA'', Bytes ''BBB'']
     \<and> writes_of (trace w') = [''json/a.json'']
     \<and> fs w' ''json/a.json'' = Some (File (JsonText demo_result))
     \<and> fs w' ''json/c.json'' = None"
proof -
  let ?w1 = "snd (main_loop failing_libs demo_client demo_keywords demo_environ [''a.mp3'']
    three_files)"
  let ?req = "recognize_request (Bytes ''BBB'') demo_keywords (Some ''CUSTOM1'')"
  have pre: "main_loop failing_libs demo_client demo_keywords demo_environ [''a.mp3''] three_files =
      (Inr (), ?w1)"
    using three_files_first(1) by (simp add: prod_eq_iff)
  have regular: "fs ?w1 (os_path_join audios_folder ''b.mp3'') = Some (File (Bytes ''BBB''))"
    using three_files_first(3) by (simp add: os_path_join_def audios_folder_def)
  have cid: "demo_environ ''custom_id'' = Some ''CUSTOM1''"
    by (simp add: demo_environ_def)
  have fails: "recognize failing_libs (trace ?w1) demo_client ?req = Inl (LibraryError ''ApiException'')"
    by (simp add: failing_libs_def recognize_request_def)
  from main_loop_stops_at_failed_request [OF pre regular cid fails, of "[''c.mp3'']"]
  obtain w' where
    "main_loop failing_libs demo_client demo_keywords demo_environ
       ([''a.mp3''] @ ''b.mp3'' # [''c.mp3'']) three_files = (Inl (LibraryError ''ApiException''), w')"
    "w' = ?w1\<lparr>trace := trace ?w1 @ [Recognize demo_client ?req]\<rparr>"
    by blast
  then show ?thesis
    using pre three_files_first(2,4,5)
    by (intro exI [of _ ?w1] exI [of _ w'])
      (simp add: requests_of_def writes_of_def recognize_request_def)
qed

section \<open>The whole run\<close>

lemma load_env_keys_Inr:
  "load_env_keys keys env0 w = (Inr env, w') \<Longrightarrow>
     w' = w \<and> (\<forall>k. env k = (if k \<in> set keys then environ w k else env0 k))"
proof (induction keys arbitrary: env0)
  case Nil
  then show ?case by simp
next
  case (Cons k keys)
  show ?case
  proof (cases "environ w k")
    case None
    with Cons.prems show ?thesis by simp
  next
    case (Some v)
    show ?thesis
    proof (cases "v = [] \<or> env0 k \<noteq> None")
      case True
      with Cons.prems Some show ?thesis by (auto split: if_splits)
    next
      case False
      with Cons.prems Some have "load_env_keys keys (env0(k \<mapsto> v)) w = (Inr env, w')"
        by (simp split: if_splits)
      from Cons.IH [OF this] Some False show ?thesis by auto
    qed
  qed
qed

lemma load_env_Inr:
  assumes "load_env X script env_file keys w = (Inr env, w1)"
  shows "\<exists>E. load_dotenv X (fs w) (os_path_join (os_path_dirname script) env_file) (environ w) = Inr E
           \<and> w1 = w\<lparr>environ := E,
                    trace := trace w @ [Load_dotenv (os_path_join (os_path_dirname script) env_file)]\<rparr>
           \<and> (\<forall>k\<in>set keys. env k = E k)"
proof (cases "load_dotenv X (fs w) (os_path_join (os_path_dirname script) env_file) (environ w)")
  case (Inl e)
  with assms show ?thesis by (simp add: load_env_def Let_def)
next
  case (Inr E)
  from assms load_env_keys_Inr [of keys Map.empty _ env w1] show ?thesis
    by (auto simp: load_env_loaded [OF Inr] Inr)
qed

lemma trace_projections_append:
  "requests_of (xs @ ys) = requests_of xs @ requests_of ys"
  "writes_of (xs @ ys) = writes_of xs @ writes_of ys"
  "clients_of (xs @ ys) = clients_of xs @ clients_of ys"
  "loads_of (xs @ ys) = loads_of xs @ loads_of ys"
  by (simp_all add: requests_of_def writes_of_def clients_of_def loads_of_def)

lemma trace_projections_Cons:
  "requests_of (Recognize c r # es) = r # requests_of es"
  "requests_of (Load_dotenv p # es) = requests_of es"
  "requests_of (Printed m # es) = requests_of es"
  "requests_of (Client_built a # es) = requests_of es"
  "requests_of (Read_excel p h # es) = requests_of es"
  "requests_of (Wrote p j # es) = requests_of es"
  "requests_of [] = []"
  "loads_of (Load_dotenv p # es) = p # loads_of es"
  "loads_of (Recognize c r # es) = loads_of es"
  "loads_of (Printed m # es) = loads_of es"
  "loads_of (Client_built a # es) = loads_of es"
  "loads_of (Read_excel p h # es) = loads_of es"
  "loads_of (Wrote p j # es) = loads_of es"
  "loads_of [] = []"
  "clients_of (Client_built a # es) = a # clients_of es"
  "clients_of (Load_dotenv p # es) = clients_of es"
  "clients_of (Printed m # es) = clients_of es"
  "clients_of (Recognize c r # es) = clients_of es"
  "clients_of (Read_excel p h # es) = clients_of es"
  "clients_of (Wrote p j # es) = clients_of es"
  "clients_of [] = []"
  by (simp_all add: requests_of_def clients_of_def loads_of_def)

lemma printed_projections:
  "requests_of (map Printed msgs) = []" "loads_of (map Printed msgs) = []"
  "clients_of (map Printed msgs) = []"
  by (induction msgs) (simp_all add: trace_projections_Cons)

lemma transcribe_world:
  assumes "fs w (os_path_join audios_folder n) = Some (File a)"
  shows "\<exists>es. trace (snd (transcribe X stt kws env n w)) = trace w @ es
           \<and> loads_of es = [] \<and> clients_of es = []
           \<and> environ (snd (transcribe X stt kws env n w)) = environ w
           \<and> (\<forall>r\<in>set (requests_of es). \<exists>a. r = recognize_request a kws (env ''custom_id''))"
proof (cases "env ''custom_id''")
  case None
  then have "snd (transcribe X stt kws env n w) = w"
    by (simp add: transcribe_regular [OF assms])
  then show ?thesis by (simp add: trace_projections_Cons)
next
  case (Some cid)
  let ?req = "recognize_request a kws (Some cid)"
  show ?thesis
  proof (cases "recognize X (trace w) stt ?req")
    case (Inl e)
    then have "snd (transcribe X stt kws env n w) = emit (Recognize stt ?req) w"
      using Some by (simp add: transcribe_regular [OF assms])
    then have "trace (snd (transcribe X stt kws env n w)) = trace w @ [Recognize stt ?req]"
      "environ (snd (transcribe X stt kws env n w)) = environ w"
      by (simp_all add: emit_def)
    then show ?thesis using Some by (auto simp: trace_projections_Cons)
  next
    case (Inr j)
    let ?w1 = "emit (Recognize stt ?req) w"
    have t: "transcribe X stt kws env n w = save_json X j n json_folder ?w1"
      using Some Inr by (simp add: transcribe_regular [OF assms])
    from save_json_trace [of X j n json_folder ?w1] obtain tail where
      tail: "trace (snd (save_json X j n json_folder ?w1)) = trace ?w1 @ tail"
        "tail = [] \<or> tail = [Wrote (json_pathfile json_folder n) j]
           \<or> tail = [Wrote (json_pathfile json_folder n) j,
                       Printed (quoted (json_pathfile json_folder n) @ '' was saved sucessful'')]"
      by blast
    have a: "trace (snd (transcribe X stt kws env n w)) = trace w @ (Recognize stt ?req # tail)"
      unfolding t tail(1) by (simp add: emit_def)
    have b: "environ (snd (transcribe X stt kws env n w)) = environ w"
      unfolding t save_json_environ by (simp add: emit_def)
    have c: "loads_of (Recognize stt ?req # tail) = []"
      "clients_of (Recognize stt ?req # tail) = []"
      "requests_of (Recognize stt ?req # tail) = [?req]"
      using tail(2) by (auto simp: trace_projections_Cons)
    show ?thesis
      using Some a b c by (intro exI [of _ "Recognize stt ?req # tail"]) auto
  qed
qed

lemma main_loop_world:
  "\<exists>es. trace (snd (main_loop X stt kws env names w)) = trace w @ es
     \<and> loads_of es = [] \<and> clients_of es = []
     \<and> environ (snd (main_loop X stt kws env names w)) = environ w
     \<and> (\<forall>r\<in>set (requests_of es). \<exists>a. r = recognize_request a kws (env ''custom_id''))"
proof (induction names arbitrary: w)
  case Nil
  show ?case by (simp add: trace_projections_Cons)
next
  case (Cons n names)
  show ?case
  proof (cases "isfile w (os_path_join audios_folder n)")
    case False
    then show ?thesis using Cons.IH [of w] by simp
  next
    case True
    then obtain a where reg: "fs w (os_path_join audios_folder n) = Some (File a)"
      by (auto simp: isfile_def split: option.splits entry.splits)
    obtain r w1 where t: "transcribe X stt kws env n w = (r, w1)"
      by fastforce
    from transcribe_world [OF reg, of X stt kws env] t obtain es1 where
      one: "trace w1 = trace w @ es1" "loads_of es1 = []" "clients_of es1 = []"
        "environ w1 = environ w"
        "\<forall>r\<in>set (requests_of es1). \<exists>a. r = recognize_request a kws (env ''custom_id'')"
      by auto
    show ?thesis
    proof (cases r)
      case (Inl e)
      then have "main_loop X stt kws env (n # names) w = (Inl e, w1)"
        using True t by simp
      with one show ?thesis by (intro exI [of _ es1]) simp
    next
      case (Inr u)
      then have step: "main_loop X stt kws env (n # names) w = main_loop X stt kws env names w1"
        using True t by simp
      from Cons.IH [of w1] obtain es2 where
        two: "trace (snd (main_loop X stt kws env names w1)) = trace w1 @ es2"
          "loads_of es2 = []" "clients_of es2 = []"
          "environ (snd (main_loop X stt kws env names w1)) = environ w1"
          "\<forall>r\<in>set (requests_of es2). \<exists>a. r = recognize_request a kws (env ''custom_id'')"
        by blast
      have a: "trace (snd (main_loop X stt kws env (n # names) w)) = trace w @ (es1 @ es2)"
        using one(1) two(1) step by simp
      have b: "loads_of (es1 @ es2) = []" "clients_of (es1 @ es2) = []"
        using one two by (simp_all add: trace_projections_append)
      have c: "environ (snd (main_loop X stt kws env (n # names) w)) = environ w"
        using one two step by simp
      have d: "\<forall>r\<in>set (requests_of (es1 @ es2)).
                       \<exists>a. r = recognize_request a kws (env ''custom_id'')"
        using one(5) two(5) by (auto simp: trace_projections_append)
      show ?thesis
        by (rule exI [of _ "es1 @ es2"]) (use a b c d in blast)
    qed
  qed
qed

lemma instantiate_stt_world:
  "\<exists>es. trace (snd (instantiate_stt X k u w)) = trace w @ es
     \<and> loads_of es = [] \<and> requests_of es = []
     \<and> fs (snd (instantiate_stt X k u w)) = fs w
     \<and> environ (snd (instantiate_stt X k u w)) = environ w"
proof (cases "iam_authenticator X k")
  case (Inl e)
  then show ?thesis
    by (intro exI [of _ "[]"]) (simp add: instantiate_stt_def trace_projections_Cons)
next
  case (Inr a)
  then have "snd (instantiate_stt X k u w) = emit (Client_built a) w"
    by (simp add: instantiate_stt_def Let_def split: option.splits)
  then show ?thesis
    by (intro exI [of _ "[Client_built a]"]) (simp add: emit_def trace_projections_Cons)
qed

lemma extract_keywords_world:
  "snd (extract_keywords X p h w) = emit (Read_excel p h) w"
  by (simp add: extract_keywords_def Let_def split: sum.splits)

lemma extract_keywords_fs:
  "fs w = fs w0 \<Longrightarrow> fst (extract_keywords X p h w) = fst (extract_keywords X p h w0)"
  by (simp add: extract_keywords_def Let_def split: sum.splits)

lemma listdir_world: "snd (listdir p w) = w"
  by (simp add: listdir_def split: option.splits entry.splits)

text \<open>What \<^verbatim>\<open>main\<close> does once the configuration is loaded.\<close>

lemma main_after_load:
  assumes "2 < length argv"
    and "load_env X script (argv ! 1) [''api_key'', ''api_url'', ''base_lang'', ''custom_id''] w =
           (Inr env, w1)"
  shows "\<exists>es. trace (snd (main X script argv w)) = trace w1 @ es
           \<and> loads_of es = []
           \<and> environ (snd (main X script argv w)) = environ w1
           \<and> (\<forall>r\<in>set (requests_of es). \<exists>a kws.
                 r = recognize_request a kws (env ''custom_id'')
                 \<and> fst (extract_keywords X (argv ! 2) 0 w1) = Inr kws)"
proof -
  let ?kf = "argv ! 2"
  let ?tail = "\<lambda>api_key api_url.
     thn (instantiate_stt X api_key api_url) (\<lambda>speech_to_text.
     thn (extract_keywords X ?kf 0) (\<lambda>kws.
     thn (listdir audios_folder) (\<lambda>names.
     main_loop X speech_to_text kws env names)))"
  have quiet: "\<exists>es. trace w1 = trace w1 @ es \<and> loads_of es = [] \<and> environ w1 = environ w1
      \<and> (\<forall>r\<in>set (requests_of es). \<exists>a kws.
            r = recognize_request a kws (env ''custom_id'')
            \<and> fst (extract_keywords X ?kf 0 w1) = Inr kws)"
    by (intro exI [of _ "[]"]) (simp add: trace_projections_Cons)
  show ?thesis
  proof (cases "env ''api_key''")
    case None
    then have "snd (main X script argv w) = w1"
      using assms by (simp add: main_def thn_def pure_def index_def getitem_def)
    with quiet show ?thesis by simp
  next
    case key: (Some api_key)
    show ?thesis
    proof (cases "env ''api_url''")
      case None
      then have "snd (main X script argv w) = w1"
        using assms key by (simp add: main_def thn_def pure_def index_def getitem_def)
      with quiet show ?thesis by simp
    next
      case url: (Some api_url)
      have m: "main X script argv w = ?tail api_key api_url w1"
        using assms key url by (simp add: main_def thn_def pure_def index_def getitem_def)
      obtain r2 w2 where i: "instantiate_stt X api_key api_url w1 = (r2, w2)"
        by fastforce
      from instantiate_stt_world [of X api_key api_url w1] i obtain es2 where
        two: "trace w2 = trace w1 @ es2" "loads_of es2 = []" "requests_of es2 = []"
          "fs w2 = fs w1" "environ w2 = environ w1"
        by auto
      show ?thesis
      proof (cases r2)
        case (Inl e)
        then have "snd (main X script argv w) = w2"
          using m i by (simp add: thn_def)
        with two show ?thesis by (intro exI [of _ es2]) simp
      next
        case stt: (Inr speech_to_text)
        let ?w3 = "emit (Read_excel ?kf 0) w2"
        obtain r3 where x: "extract_keywords X ?kf 0 w2 = (r3, ?w3)"
          using extract_keywords_world [of X ?kf 0 w2] by (metis prod.collapse)
        have r3: "r3 = fst (extract_keywords X ?kf 0 w1)"
          using x extract_keywords_fs [OF two(4), of X ?kf 0] by simp
        have three: "trace ?w3 = trace w1 @ (es2 @ [Read_excel ?kf 0])"
          "loads_of (es2 @ [Read_excel ?kf 0]) = []"
          "requests_of (es2 @ [Read_excel ?kf 0]) = []"
          "environ ?w3 = environ w1"
          using two by (simp_all add: emit_def trace_projections_append trace_projections_Cons)
        show ?thesis
        proof (cases r3)
          case (Inl e)
          then have "snd (main X script argv w) = ?w3"
            using m i stt x by (simp add: thn_def)
          with three show ?thesis
            by (intro exI [of _ "es2 @ [Read_excel ?kf 0]"]) simp
        next
          case kws: (Inr kws)
          obtain r4 where l: "listdir audios_folder ?w3 = (r4, ?w3)"
            using listdir_world [of audios_folder ?w3] by (metis prod.collapse)
          show ?thesis
          proof (cases r4)
            case (Inl e)
            then have "snd (main X script argv w) = ?w3"
              using m i stt x kws l by (simp add: thn_def)
            with three show ?thesis
              by (intro exI [of _ "es2 @ [Read_excel ?kf 0]"]) simp
          next
            case (Inr names)
            then have run: "main X script argv w = main_loop X speech_to_text kws env names ?w3"
              using m i stt x kws l by (simp add: thn_def)
            from main_loop_world [of X speech_to_text kws env names ?w3] obtain es4 where
              four: "trace (snd (main_loop X speech_to_text kws env names ?w3)) = trace ?w3 @ es4"
                "loads_of es4 = []"
                "environ (snd (main_loop X speech_to_text kws env names ?w3)) = environ ?w3"
                "\<forall>r\<in>set (requests_of es4). \<exists>a. r = recognize_request a kws (env ''custom_id'')"
              by blast
            let ?es = "(es2 @ [Read_excel ?kf 0]) @ es4"
            have a: "trace (snd (main X script argv w)) = trace w1 @ ?es"
              using run four(1) three(1) by simp
            have b: "loads_of ?es = []"
              using three(2) four(2) by (simp add: trace_projections_append trace_projections_Cons)
            have c: "environ (snd (main X script argv w)) = environ w1"
              using run four(3) three(4) by simp
            have "requests_of ?es = requests_of es4"
              using three(3) by (simp add: trace_projections_append trace_projections_Cons)
            moreover have "fst (extract_keywords X ?kf 0 w1) = Inr kws"
              using r3 kws by simp
            ultimately have d: "\<forall>r\<in>set (requests_of ?es). \<exists>a kws.
                 r = recognize_request a kws (env ''custom_id'')
                 \<and> fst (extract_keywords X ?kf 0 w1) = Inr kws"
              using four(4) by metis
            show ?thesis
              by (rule exI [of _ ?es]) (use a b c d in blast)
          qed
        qed
      qed
    qed
  qed
qed

lemma main_load_fails:
  assumes "2 < length argv"
    and "fst (load_env X script (argv ! 1) [''api_key'', ''api_url'', ''base_lang'', ''custom_id''] w) =
           Inl e"
  shows "main X script argv w =
           (Inl e, snd (load_env X script (argv ! 1)
                          [''api_key'', ''api_url'', ''base_lang'', ''custom_id''] w))"
proof -
  obtain r w1 where l:
    "load_env X script (argv ! 1) [''api_key'', ''api_url'', ''base_lang'', ''custom_id''] w = (r, w1)"
    by fastforce
  with assms(2) have "r = Inl e" by simp
  with assms(1) l show ?thesis
    by (simp add: main_def thn_def pure_def index_def)
qed

lemma main_short: "\<not> 2 < length argv \<Longrightarrow> snd (main X script argv w) = w"
  by (simp add: main_def thn_def pure_def index_def)

text \<open>The whole run, from the call of \<^verbatim>\<open>load_dotenv\<close> on.\<close>

lemma main_world:
  assumes "2 < length argv"
  shows "\<exists>es. trace (snd (main X script argv w)) =
                trace w @ Load_dotenv (os_path_join (os_path_dirname script) (argv ! 1)) # es
           \<and> loads_of es = []
           \<and> (\<forall>r\<in>set (requests_of es). \<exists>a kws.
                 r = recognize_request a kws (environ (snd (main X script argv w)) ''custom_id'')
                 \<and> fst (extract_keywords X (argv ! 2) 0 w) = Inr kws)"
proof -
  let ?keys = "[''api_key'', ''api_url'', ''base_lang'', ''custom_id'']"
  let ?p = "os_path_join (os_path_dirname script) (argv ! 1)"
  obtain r1 w1 where l: "load_env X script (argv ! 1) ?keys w = (r1, w1)"
    by fastforce
  show ?thesis
  proof (cases r1)
    case (Inl e)
    from load_env_world [of X script "argv ! 1" ?keys w] l obtain msgs where
      "trace w1 = trace w @ Load_dotenv ?p # map Printed msgs"
      by auto
    moreover have "main X script argv w = (Inl e, w1)"
      using main_load_fails [OF assms, of X script w e] l Inl by simp
    ultimately show ?thesis
      by (intro exI [of _ "map Printed msgs"]) (simp add: printed_projections)
  next
    case (Inr env)
    with l have l': "load_env X script (argv ! 1) ?keys w = (Inr env, w1)" by simp
    from load_env_Inr [OF l'] obtain E where
      w1: "w1 = w\<lparr>environ := E, trace := trace w @ [Load_dotenv ?p]\<rparr>"
      and env: "\<forall>k\<in>set ?keys. env k = E k"
      by blast
    from main_after_load [OF assms l'] obtain es where
      es: "trace (snd (main X script argv w)) = trace w1 @ es" "loads_of es = []"
        "environ (snd (main X script argv w)) = environ w1"
        "\<forall>r\<in>set (requests_of es). \<exists>a kws.
            r = recognize_request a kws (env ''custom_id'')
            \<and> fst (extract_keywords X (argv ! 2) 0 w1) = Inr kws"
      by blast
    have "fs w1 = fs w" by (simp add: w1)
    then have x: "fst (extract_keywords X (argv ! 2) 0 w1) = fst (extract_keywords X (argv ! 2) 0 w)"
      by (rule extract_keywords_fs)
    have c: "env ''custom_id'' = environ (snd (main X script argv w)) ''custom_id''"
      using env es(3) by (simp add: w1)
    have a: "trace (snd (main X script argv w)) = trace w @ Load_dotenv ?p # es"
      using es(1) by (simp add: w1)
    have d: "\<forall>r\<in>set (requests_of es). \<exists>a kws.
                 r = recognize_request a kws (environ (snd (main X script argv w)) ''custom_id'')
                 \<and> fst (extract_keywords X (argv ! 2) 0 w) = Inr kws"
      using es(4) unfolding x c .
    show ?thesis
      by (rule exI [of _ es]) (use a es(2) d in blast)
  qed
qed

section \<open>The concrete run\<close>

lemma demo_load_env:
  "load_env demo_libs demo_script ''.env'' [''api_key'', ''api_url'', ''base_lang'', ''custom_id'']
     demo_world =
   (Inr demo_environ, demo_world\<lparr>environ := demo_environ, trace := [Load_dotenv ''src/.env'']\<rparr>)"
  by (simp add: load_env_loaded [OF demo_loaded] demo_path)
    (simp add: demo_environ_def demo_world_def)

lemma demo_main:
  "fst (main demo_libs demo_script demo_argv demo_world) = Inr ()"
  "trace (snd (main demo_libs demo_script demo_argv demo_world)) =
     [Load_dotenv ''src/.env'', Client_built ''KEY1'', Read_excel ''keywords.xlsx'' 0,
      Recognize demo_client (recognize_request (Bytes ''AAA'') demo_keywords (Some ''CUSTOM1'')),
      Wrote ''json/a.json'' demo_result,
      Printed '''json/a.json' was saved sucessful'',
      Recognize demo_client (recognize_request (Bytes ''BBB'') demo_keywords (Some ''CUSTOM1'')),
      Wrote ''json/b.json'' demo_result,
      Printed '''json/b.json' was saved sucessful'']"
  "environ (snd (main demo_libs demo_script demo_argv demo_world)) ''custom_id'' = Some ''CUSTOM1''"
  by (simp_all add: main_def demo_argv_def thn_def pure_def index_def demo_load_env)
    (simp_all add: run_defs demo_defs instantiate_stt_def extract_keywords_def iloc_column_def
      listdir_def demo_frame_def demo_keywords_def quoted_def)

lemma demo_extract:
  "fst (extract_keywords demo_libs ''keywords.xlsx'' 0 demo_world) = Inr demo_keywords"
  by (simp add: extract_keywords_def iloc_column_def demo_libs_def demo_frame_def
      demo_keywords_def Let_def)

section \<open>Claims about the whole run\<close>

text \<open>
  Claim C6.  Every recognition request a run of \<^verbatim>\<open>main\<close> sends has the content type
  \<^verbatim>\<open>audio/mp3\<close>, the model \<^verbatim>\<open>es-CO_NarrowbandModel\<close>, the customization identifier
  loaded under \<^verbatim>\<open>custom_id\<close>, the keyword list \<^verbatim>\<open>extract_keywords\<close> returned for the
  second command-line argument, both thresholds 0.5, speaker labels on, the inactivity
  timeout -1 (none) and at most 3 alternatives.
\<close>

theorem every_request_has_fixed_parameters:
  assumes "r \<in> set (requests_of (new_events w (snd (main X script argv w))))"
  shows "content_type r = ''audio/mp3''
     \<and> model r = ''es-CO_NarrowbandModel''
     \<and> customization_id r = environ (snd (main X script argv w)) ''custom_id''
     \<and> fst (extract_keywords X (argv ! 2) 0 w) = Inr (keyword_list r)
     \<and> word_alternatives_threshold r = 0.5
     \<and> keywords_threshold r = 0.5
     \<and> speaker_labels r
     \<and> inactivity_timeout r = - 1
     \<and> max_alternatives r = 3"
proof (cases "2 < length argv")
  case False
  then have "new_events w (snd (main X script argv w)) = []"
    by (simp add: main_short new_events_def)
  with assms show ?thesis by (simp add: trace_projections_Cons)
next
  case True
  from main_world [OF True, of X script w] obtain es where
    tr: "trace (snd (main X script argv w)) =
           trace w @ Load_dotenv (os_path_join (os_path_dirname script) (argv ! 1)) # es"
    and rq: "\<forall>r\<in>set (requests_of es). \<exists>a kws.
               r = recognize_request a kws (environ (snd (main X script argv w)) ''custom_id'')
               \<and> fst (extract_keywords X (argv ! 2) 0 w) = Inr kws"
    by blast
  from tr assms have "r \<in> set (requests_of es)"
    by (simp add: new_events_def trace_projections_Cons)
  with rq obtain a kws where
    "r = recognize_request a kws (environ (snd (main X script argv w)) ''custom_id'')"
    "fst (extract_keywords X (argv ! 2) 0 w) = Inr kws"
    by blast
  then show ?thesis by (simp add: recognize_request_def)
qed

lemma demo_trace_empty: "trace demo_world = []"
  by (simp add: demo_world_def)

text \<open>The request for \<^verbatim>\<open>a.mp3\<close> in the concrete run.\<close>

theorem every_request_has_fixed_parameters_witness:
  "requests_of (new_events demo_world (snd (main demo_libs demo_script demo_argv demo_world))) =
     [recognize_request (Bytes ''AAA'') demo_keywords (Some ''CUSTOM1''),
      recognize_request (Bytes ''BBB'') demo_keywords (Some ''CUSTOM1'')]
   \<and> content_type (recognize_request (Bytes ''AAA'') demo_keywords (Some ''CUSTOM1'')) = ''audio/mp3''
   \<and> model (recognize_request (Bytes ''AAA'') demo_keywords (Some ''CUSTOM1'')) =
       ''es-CO_NarrowbandModel''
   \<and> environ (snd (main demo_libs demo_script demo_argv demo_world)) ''custom_id'' = Some ''CUSTOM1''
   \<and> fst (extract_keywords demo_libs (demo_argv ! 2) 0 demo_world) = Inr demo_keywords
   \<and> max_alternatives (recognize_request (Bytes ''AAA'') demo_keywords (Some ''CUSTOM1'')) = 3"
proof -
  let ?r = "recognize_request (Bytes ''AAA'') demo_keywords (Some ''CUSTOM1'')"
  have sent: "requests_of (new_events demo_world
      (snd (main demo_libs demo_script demo_argv demo_world))) =
     [?r, recognize_request (Bytes ''BBB'') demo_keywords (Some ''CUSTOM1'')]"
    using demo_trace_empty by (simp add: new_events_def demo_main(2) trace_projections_Cons)
  then have "?r \<in> set (requests_of (new_events demo_world
      (snd (main demo_libs demo_script demo_argv demo_world))))"
    by simp
  from every_request_has_fixed_parameters [OF this] sent show ?thesis
    by (simp add: recognize_request_def)
qed

text \<open>
  Claim C10.  A run with both command-line arguments calls \<^verbatim>\<open>load_dotenv\<close> exactly
  once, on \<^verbatim>\<open>os.path.join(os.path.dirname(__file__), sys.argv[1])\<close>.  When
  \<^verbatim>\<open>__file__\<close> is \<open>d/b\<close> with \<open>b\<close> the file name of the script and \<open>d\<close> its directory,
  and the argument is a relative path, that path is \<open>d\<close>, a slash and the argument.  No
  step of the run reads or changes the working directory.
\<close>

theorem main_loads_env_file_beside_script:
  assumes "2 < length argv"
  shows "loads_of (new_events w (snd (main X script argv w))) =
           [os_path_join (os_path_dirname script) (argv ! 1)]
     \<and> (\<forall>d b. script = d @ ''/'' @ b \<and> CHR ''/'' \<notin> set b \<and> d \<noteq> [] \<and> last d \<noteq> CHR ''/''
               \<and> (argv ! 1 = [] \<or> hd (argv ! 1) \<noteq> CHR ''/'')
           \<longrightarrow> os_path_join (os_path_dirname script) (argv ! 1) = d @ ''/'' @ argv ! 1)"
proof -
  from main_world [OF assms, of X script w] obtain es where
    "trace (snd (main X script argv w)) =
       trace w @ Load_dotenv (os_path_join (os_path_dirname script) (argv ! 1)) # es"
    "loads_of es = []"
    by blast
  then have "loads_of (new_events w (snd (main X script argv w))) =
      [os_path_join (os_path_dirname script) (argv ! 1)]"
    by (simp add: new_events_def trace_projections_Cons)
  moreover have "os_path_join (os_path_dirname script) (argv ! 1) = d @ ''/'' @ argv ! 1"
    if "script = d @ ''/'' @ b" "CHR ''/'' \<notin> set b" "d \<noteq> []" "last d \<noteq> CHR ''/''"
      "argv ! 1 = [] \<or> hd (argv ! 1) \<noteq> CHR ''/''" for d b
  proof -
    have "os_path_dirname script = d"
      using os_path_dirname_slash [OF that(2,3,4)] that(1) by simp
    then show ?thesis
      using os_path_join_relative [OF that(3,4,5)] by simp
  qed
  ultimately show ?thesis by blast
qed

text \<open>The script \<^verbatim>\<open>src/stt_recognize.py\<close> called with \<^verbatim>\<open>.env\<close> loads \<^verbatim>\<open>src/.env\<close>.\<close>

theorem main_loads_env_file_beside_script_witness:
  "demo_script = ''src'' @ ''/'' @ ''stt_recognize.py''
   \<and> demo_argv ! 1 = ''.env''
   \<and> loads_of (new_events demo_world (snd (main demo_libs demo_script demo_argv demo_world))) =
       [''src/.env'']"
proof -
  have len: "2 < length demo_argv"
    by (simp add: demo_argv_def)
  have arg: "demo_argv ! 1 = ''.env''"
    by (simp add: demo_argv_def)
  have here: "demo_script = ''src'' @ ''/'' @ ''stt_recognize.py''"
    by (simp add: demo_script_def)
  from main_loads_env_file_beside_script [OF len, of demo_world demo_libs demo_script]
  have loads: "loads_of (new_events demo_world
        (snd (main demo_libs demo_script demo_argv demo_world))) =
      [os_path_join (os_path_dirname demo_script) (demo_argv ! 1)]"
    and rel: "\<And>d b. demo_script = d @ ''/'' @ b \<and> CHR ''/'' \<notin> set b \<and> d \<noteq> []
        \<and> last d \<noteq> CHR ''/'' \<and> (demo_argv ! 1 = [] \<or> hd (demo_argv ! 1) \<noteq> CHR ''/'')
      \<Longrightarrow> os_path_join (os_path_dirname demo_script) (demo_argv ! 1) = d @ ''/'' @ demo_argv ! 1"
    by blast+
  have "os_path_join (os_path_dirname demo_script) (demo_argv ! 1) = ''src'' @ ''/'' @ demo_argv ! 1"
    by (rule rel [of "''src''" "''stt_recognize.py''"]) (simp add: demo_script_def demo_argv_def)
  with loads arg here show ?thesis by simp
qed

text \<open>
  Claim C4, amended.  \<^verbatim>\<open>extract_keywords\<close> hands its second argument to pandas as
  \<^verbatim>\<open>header\<close>, the 0-based index of the label row.  For a workbook whose first sheet has
  \<open>h\<close> rows above the label row and \<open>n\<close> data rows below it, called with \<open>h\<close>, it
  returns \<open>n\<close> values: the first cell of each data row, in row order, a value that occurs
  in several rows as often as it occurs.  The single call of the parser is the one with
  that path and that \<open>h\<close>.
\<close>

theorem extract_keywords_first_column:
  assumes "read_excel X = pandas_read_excel"
    and "fs w excel_pathfile = Some (File (Workbook sheet))"
    and "sheet = titles @ labels # data"
    and "h = int (length titles)"
    and "labels \<noteq> []"
    and "\<forall>r\<in>set data. length r = length labels"
  shows "\<exists>kws. fst (extract_keywords X excel_pathfile h w) = Inr kws
           \<and> kws = map hd data
           \<and> length kws = length data
           \<and> (\<forall>i<length data. kws ! i = hd (data ! i))
           \<and> new_events w (snd (extract_keywords X excel_pathfile h w)) =
               [Read_excel excel_pathfile h]"
proof -
  have parsed: "read_excel X (fs w) excel_pathfile h = Inr \<lparr>columns = labels, rows = data\<rparr>"
    using assms(2,3,4) by (simp add: assms(1) pandas_read_excel_def nth_append)
  have "r ! 0 = hd r" if "r \<in> set data" for r
  proof -
    from that assms(5,6) have "r \<noteq> []" by (metis length_0_conv)
    then show ?thesis by (simp add: hd_conv_nth)
  qed
  then have "map (\<lambda>r. r ! 0) data = map hd data"
    by simp
  then have "fst (extract_keywords X excel_pathfile h w) = Inr (map hd data)"
    using parsed assms(5) by (simp add: extract_keywords_def iloc_column_def Let_def)
  moreover have "new_events w (snd (extract_keywords X excel_pathfile h w)) =
      [Read_excel excel_pathfile h]"
    by (simp add: extract_keywords_world emit_def new_events_def)
  ultimately show ?thesis by simp
qed

text \<open>
  The workbook \<^verbatim>\<open>titled.xlsx\<close>, one title row above three keywords, read with
  \<^verbatim>\<open>header=0\<close> as \<^verbatim>\<open>main\<close> does.
\<close>

theorem extract_keywords_first_column_witness:
  "fs sheet_world ''titled.xlsx'' =
     Some (File (Workbook ([] @ [SStr ''keyword'']
        # [[SStr ''factura''], [SStr ''saldo''], [SStr ''factura'']])))
   \<and> fst (extract_keywords sheet_libs ''titled.xlsx'' 0 sheet_world) =
       Inr [SStr ''factura'', SStr ''saldo'', SStr ''factura'']"
proof -
  let ?data = "[[SStr ''factura''], [SStr ''saldo''], [SStr ''factura'']]"
  have lib: "read_excel sheet_libs = pandas_read_excel"
    by (simp add: sheet_libs_def)
  have book: "fs sheet_world ''titled.xlsx'' = Some (File (Workbook ([] @ [SStr ''keyword''] # ?data)))"
    by (simp add: sheet_world_def)
  have h: "(0::int) = int (length ([] :: scalar list list))"
    by simp
  have labels: "[SStr ''keyword''] \<noteq> []"
    by simp
  have rect: "\<forall>r\<in>set ?data. length r = length [SStr ''keyword'']"
    by simp
  from extract_keywords_first_column [OF lib book refl h labels rect] book
  show ?thesis by simp
qed

text \<open>
  Claim C4 as stated fails, by one row.  \<^verbatim>\<open>bare.xlsx\<close> has no header row and three
  data rows; called with 0, \<^verbatim>\<open>extract_keywords\<close> takes the first keyword for the labels
  and returns two values.  \<^verbatim>\<open>titled.xlsx\<close> has one header row and three data rows;
  called with 1, it drops the title, takes the first keyword for the labels and returns
  two values.
\<close>

theorem extract_keywords_header_is_row_index:
  "fs sheet_world ''bare.xlsx'' =
     Some (File (Workbook [[SStr ''factura''], [SStr ''saldo''], [SStr ''factura'']]))
   \<and> fst (extract_keywords sheet_libs ''bare.xlsx'' 0 sheet_world) =
       Inr [SStr ''saldo'', SStr ''factura'']
   \<and> fs sheet_world ''titled.xlsx'' =
       Some (File (Workbook
         [[SStr ''keyword''], [SStr ''factura''], [SStr ''saldo''], [SStr ''factura'']]))
   \<and> fst (extract_keywords sheet_libs ''titled.xlsx'' 1 sheet_world) =
       Inr [SStr ''saldo'', SStr ''factura'']"
  by (simp add: sheet_world_def sheet_libs_def extract_keywords_def pandas_read_excel_def
      iloc_column_def Let_def)

text \<open>
  Claim C2, amended.  When a key of the list has no value or an empty one in the loaded
  environment, \<^verbatim>\<open>load_env\<close> halts with exit status 1 after printing exactly one line,
  which names a key of the list: the missing-value message or the repeated-key message.
  It is the missing-value message for \<open>k\<close> when \<open>k\<close> is the first key without a value and
  no key before it occurs twice.  With the key list of \<^verbatim>\<open>main\<close>, the run ends there with
  the same status: no client is built and no request is sent.
\<close>

theorem load_env_missing_key_halts:
  assumes "load_dotenv X (fs w) (os_path_join (os_path_dirname script) env_file) (environ w) = Inr E"
    and "k \<in> set keys"
    and "E k = None \<or> E k = Some []"
  shows "(\<exists>k'\<in>set keys. \<exists>msg.
            (msg = ''The value of '' @ quoted k' @ '' is empty.''
             \<or> msg = ''Repeated key: '' @ quoted k' @ ''.'')
            \<and> load_env X script env_file keys w =
                (Inl (SystemExit 1),
                 w\<lparr>environ := E,
                   trace := trace w @
                     [Load_dotenv (os_path_join (os_path_dirname script) env_file), Printed msg]\<rparr>))
     \<and> (\<forall>pre post. keys = pre @ k # post \<and> distinct pre
            \<and> (\<forall>x\<in>set pre. E x \<noteq> None \<and> E x \<noteq> Some [])
          \<longrightarrow> load_env X script env_file keys w =
                (Inl (SystemExit 1),
                 w\<lparr>environ := E,
                   trace := trace w @
                     [Load_dotenv (os_path_join (os_path_dirname script) env_file),
                      Printed (''The value of '' @ quoted k @ '' is empty.'')]\<rparr>))
     \<and> (keys = [''api_key'', ''api_url'', ''base_lang'', ''custom_id'']
          \<longrightarrow> (\<forall>prog kf.
                 main X script [prog, env_file, kf] w =
                   (Inl (SystemExit 1), snd (load_env X script env_file keys w))
                 \<and> clients_of (new_events w (snd (main X script [prog, env_file, kf] w))) = []
                 \<and> requests_of (new_events w (snd (main X script [prog, env_file, kf] w))) = []))"
proof -
  let ?p = "os_path_join (os_path_dirname script) env_file"
  let ?w1 = "w\<lparr>environ := E, trace := trace w @ [Load_dotenv ?p]\<rparr>"
  have absent: "\<exists>k\<in>set keys. environ ?w1 k = None \<or> environ ?w1 k = Some []"
    using assms(2,3) by auto
  from load_env_keys_exits [of keys ?w1 Map.empty] absent obtain k' msg where
    k': "k' \<in> set keys"
    and msg: "msg = ''The value of '' @ quoted k' @ '' is empty.''
              \<or> msg = ''Repeated key: '' @ quoted k' @ ''.''"
    and run: "load_env_keys keys Map.empty ?w1 = (Inl (SystemExit 1), emit (Printed msg) ?w1)"
    by blast
  have halt: "load_env X script env_file keys w =
      (Inl (SystemExit 1), w\<lparr>environ := E, trace := trace w @ [Load_dotenv ?p, Printed msg]\<rparr>)"
    using run by (simp add: load_env_loaded [OF assms(1)] emit_def)
  have first: "\<exists>k'\<in>set keys. \<exists>msg.
            (msg = ''The value of '' @ quoted k' @ '' is empty.''
             \<or> msg = ''Repeated key: '' @ quoted k' @ ''.'')
            \<and> load_env X script env_file keys w =
                (Inl (SystemExit 1),
                 w\<lparr>environ := E, trace := trace w @ [Load_dotenv ?p, Printed msg]\<rparr>)"
    using k' msg halt by blast
  have second: "load_env X script env_file keys w =
      (Inl (SystemExit 1),
       w\<lparr>environ := E,
         trace := trace w @
           [Load_dotenv ?p, Printed (''The value of '' @ quoted k @ '' is empty.'')]\<rparr>)"
    if "keys = pre @ k # post" "distinct pre" "\<forall>x\<in>set pre. E x \<noteq> None \<and> E x \<noteq> Some []"
    for pre post
  proof -
    have p: "\<forall>x\<in>set pre. environ ?w1 x \<noteq> None \<and> environ ?w1 x \<noteq> Some []"
      using that(3) by simp
    have "load_env_keys (pre @ k # post) Map.empty ?w1 =
          load_env_keys (k # post) (Map.empty ++ (environ ?w1 |` set pre)) ?w1"
      by (rule load_env_keys_prefix [OF that(2) p]) simp
    also have "\<dots> = (Inl (SystemExit 1),
                      emit (Printed (''The value of '' @ quoted k @ '' is empty.'')) ?w1)"
      using assms(3) by (auto split: option.splits)
    finally show ?thesis
      by (simp add: load_env_loaded [OF assms(1)] that(1) emit_def)
  qed
  have third: "main X script [prog, env_file, kf] w =
                   (Inl (SystemExit 1), snd (load_env X script env_file keys w))
                 \<and> clients_of (new_events w (snd (main X script [prog, env_file, kf] w))) = []
                 \<and> requests_of (new_events w (snd (main X script [prog, env_file, kf] w))) = []"
    if "keys = [''api_key'', ''api_url'', ''base_lang'', ''custom_id'']" for prog kf
  proof -
    have "fst (load_env X script ([prog, env_file, kf] ! 1)
            [''api_key'', ''api_url'', ''base_lang'', ''custom_id''] w) = Inl (SystemExit 1)"
      using halt that by simp
    from main_load_fails [OF _ this]
    have m: "main X script [prog, env_file, kf] w =
      (Inl (SystemExit 1), snd (load_env X script env_file keys w))"
      using that by simp
    then show ?thesis
      using halt by (simp add: new_events_def trace_projections_Cons)
  qed
  from first second third show ?thesis by blast
qed

text \<open>
  The environment file \<^verbatim>\<open>partial.env\<close> has \<^verbatim>\<open>api_key\<close> only; \<^verbatim>\<open>api_url\<close> is the
  first key of \<^verbatim>\<open>main\<close> without a value.
\<close>

theorem load_env_missing_key_halts_witness:
  "main demo_libs demo_script [''stt_recognize.py'', ''partial.env'', ''keywords.xlsx''] demo_world =
     (Inl (SystemExit 1),
      snd (load_env demo_libs demo_script ''partial.env''
             [''api_key'', ''api_url'', ''base_lang'', ''custom_id''] demo_world))
   \<and> load_env demo_libs demo_script ''partial.env''
       [''api_key'', ''api_url'', ''base_lang'', ''custom_id''] demo_world =
     (Inl (SystemExit 1),
      demo_world\<lparr>environ := [''api_key'' \<mapsto> ''KEY1''],
        trace := [Load_dotenv ''src/partial.env'', Printed ''The value of 'api_url' is empty.'']\<rparr>)
   \<and> clients_of (new_events demo_world
        (snd (main demo_libs demo_script [''stt_recognize.py'', ''partial.env'', ''keywords.xlsx'']
           demo_world))) = []"
proof -
  let ?keys = "[''api_key'', ''api_url'', ''base_lang'', ''custom_id'']"
  let ?E = "[''api_key'' \<mapsto> ''KEY1'']"
  have k: "''api_url'' \<in> set ?keys" by simp
  have absent: "?E ''api_url'' = None \<or> ?E ''api_url'' = Some []" by simp
  note inst = load_env_missing_key_halts [OF demo_partial_loaded k absent]
  have split: "?keys = [''api_key''] @ ''api_url'' # [''base_lang'', ''custom_id'']
      \<and> distinct [''api_key'']
      \<and> (\<forall>x\<in>set [''api_key'']. ?E x \<noteq> None \<and> ?E x \<noteq> Some [])"
    by simp
  from inst split have halt: "load_env demo_libs demo_script ''partial.env'' ?keys demo_world =
     (Inl (SystemExit 1),
      demo_world\<lparr>environ := ?E,
        trace := trace demo_world @
          [Load_dotenv (os_path_join (os_path_dirname demo_script) ''partial.env''),
           Printed (''The value of '' @ quoted ''api_url'' @ '' is empty.'')]\<rparr>)"
    by blast
  from inst have run: "main demo_libs demo_script
      [''stt_recognize.py'', ''partial.env'', ''keywords.xlsx''] demo_world =
     (Inl (SystemExit 1), snd (load_env demo_libs demo_script ''partial.env'' ?keys demo_world))"
    and none: "clients_of (new_events demo_world
        (snd (main demo_libs demo_script [''stt_recognize.py'', ''partial.env'', ''keywords.xlsx'']
           demo_world))) = []"
    by blast+
  have shape: "demo_world\<lparr>environ := ?E,
        trace := trace demo_world @
          [Load_dotenv (os_path_join (os_path_dirname demo_script) ''partial.env''),
           Printed (''The value of '' @ quoted ''api_url'' @ '' is empty.'')]\<rparr> =
      demo_world\<lparr>environ := ?E,
        trace := [Load_dotenv ''src/partial.env'', Printed ''The value of 'api_url' is empty.'']\<rparr>"
    by (simp add: demo_partial_path quoted_def demo_world_def)
  from halt run none show ?thesis
    unfolding shape by simp
qed

text \<open>
  Claim C2 as stated fails for the list \<^verbatim>\<open>['api_key', 'api_key', 'custom_id']\<close> on that
  file: \<^verbatim>\<open>custom_id\<close> has no value, but the one line printed names \<^verbatim>\<open>api_key\<close>, as
  repeated.
\<close>

theorem load_env_names_repeated_key_first:
  "load_dotenv demo_libs (fs demo_world)
     (os_path_join (os_path_dirname demo_script) ''partial.env'') (environ demo_world) =
     Inr [''api_key'' \<mapsto> ''KEY1'']
   \<and> [''api_key'' \<mapsto> ''KEY1''] ''custom_id'' = None
   \<and> trace (snd (load_env demo_libs demo_script ''partial.env''
        [''api_key'', ''api_key'', ''custom_id''] demo_world)) =
     [Load_dotenv ''src/partial.env'', Printed ''Repeated key: 'api_key'.'']"
  by (simp add: demo_partial_loaded load_env_loaded [OF demo_partial_loaded])
    (simp add: demo_partial_path emit_def quoted_def demo_world_def)

section \<open>The name of the output file\<close>








end
